theory Spec2Isabelle
  imports Complex_Main "HOL-Library.AList"
begin

section \<open>JavaScript values, exceptions and the platform\<close>

text \<open>
  The client (\<^verbatim>\<open>App.jsx\<close>) handles values that come out of \<^verbatim>\<open>JSON.parse\<close>: an event, its
  \<^verbatim>\<open>content\<close> and its \<^verbatim>\<open>session_id\<close> are stored in the component state as they are, without
  any check of their shape. A value is therefore a JSON value or \<^verbatim>\<open>undefined\<close> (what reading a
  missing property gives). Numbers are kept as reals (every finite double is one; \<^verbatim>\<open>-0\<close> and
  \<^verbatim>\<open>0\<close> are not told apart, and the program never needs to). An object is the list of its own
  properties; a read takes the first binding of a key. Strings are lists of 8-bit characters.
\<close>

datatype jsval =
    VUndefined
  | VNull
  | VBool bool
  | VNum real
  | VStr string
  | VArr "jsval list"
  | VObj "(string \<times> jsval) list"

text \<open>
  Every exception of the program is an \<^verbatim>\<open>Error\<close> object of which only \<^verbatim>\<open>message\<close> is read.
\<close>

datatype exn = Error string | TypeError string | SyntaxError string

fun exn_message :: "exn \<Rightarrow> string" where
  "exn_message (Error m) = m"
| "exn_message (TypeError m) = m"
| "exn_message (SyntaxError m) = m"

type_synonym date = nat

text \<open>
  What the JavaScript platform provides and the repository does not define is a parameter:
  \<^verbatim>\<open>JSON.parse\<close> on a string (\<open>None\<close> when it throws a SyntaxError), the decimal rendering of a
  number, and the texts of the platform's own error messages.
\<close>

record env =
  JSON_parse :: "string \<Rightarrow> jsval option"
  Number_toString :: "real \<Rightarrow> string"
  TypeError_message :: "string \<Rightarrow> string"
  ToPrimitive_message :: string
  SyntaxError_message :: "string \<Rightarrow> string"

fun ebind :: "exn + 'a \<Rightarrow> ('a \<Rightarrow> exn + 'b) \<Rightarrow> exn + 'b" where
  "ebind (Inl e) f = Inl e"
| "ebind (Inr x) f = f x"

text \<open>
  \<^verbatim>\<open>o.k\<close> for the property names the program reads (\<^verbatim>\<open>type\<close>, \<^verbatim>\<open>content\<close>, \<^verbatim>\<open>session_id\<close>,
  \<^verbatim>\<open>message\<close>, \<^verbatim>\<open>products\<close>, \<^verbatim>\<open>length\<close>, ...; none of them is inherited from a prototype
  except \<^verbatim>\<open>length\<close> of arrays and strings). Reading a property of \<^verbatim>\<open>undefined\<close> or \<^verbatim>\<open>null\<close>
  throws a TypeError.
\<close>

fun Get :: "env \<Rightarrow> jsval \<Rightarrow> string \<Rightarrow> exn + jsval" where
  "Get env VUndefined k = Inl (TypeError (TypeError_message env k))"
| "Get env VNull k = Inl (TypeError (TypeError_message env k))"
| "Get env (VObj kvs) k = Inr (case map_of kvs k of Some v \<Rightarrow> v | None \<Rightarrow> VUndefined)"
| "Get env (VArr xs) k = Inr (if k = ''length'' then VNum (real (length xs)) else VUndefined)"
| "Get env (VStr s) k = Inr (if k = ''length'' then VNum (real (length s)) else VUndefined)"
| "Get env (VBool b) k = Inr VUndefined"
| "Get env (VNum r) k = Inr VUndefined"

text \<open>
  The conversion to a string that a template literal and \<^verbatim>\<open>new Error(x)\<close> apply. An object
  parsed from JSON prints as \<^verbatim>\<open>[object Object]\<close>, unless it has an own property
  \<^verbatim>\<open>toString\<close> (never callable, for a JSON value), in which case the conversion throws a
  TypeError. An array prints its elements joined by commas, \<^verbatim>\<open>null\<close> and \<^verbatim>\<open>undefined\<close>
  elements as the empty string.
\<close>

fun ToString :: "env \<Rightarrow> jsval \<Rightarrow> exn + string"
  and join :: "env \<Rightarrow> jsval list \<Rightarrow> exn + string" where
  "ToString env VUndefined = Inr ''undefined''"
| "ToString env VNull = Inr ''null''"
| "ToString env (VBool b) = Inr (if b then ''true'' else ''false'')"
| "ToString env (VNum r) = Inr (Number_toString env r)"
| "ToString env (VStr s) = Inr s"
| "ToString env (VArr xs) = join env xs"
| "ToString env (VObj kvs) =
     (if ''toString'' \<in> fst ` set kvs then Inl (TypeError (ToPrimitive_message env))
      else Inr ''[object Object]'')"
| "join env [] = Inr []"
| "join env (x # xs) =
     ebind (if x = VUndefined \<or> x = VNull then Inr [] else ToString env x) (\<lambda>s.
       if xs = [] then Inr s else ebind (join env xs) (\<lambda>t. Inr (s @ '','' @ t)))"

text \<open>Truthiness, as \<^verbatim>\<open>!x\<close> and \<^verbatim>\<open>x || y\<close> test it.\<close>

fun truthy :: "jsval \<Rightarrow> bool" where
  "truthy VUndefined = False"
| "truthy VNull = False"
| "truthy (VBool b) = b"
| "truthy (VNum r) = (r \<noteq> 0)"
| "truthy (VStr s) = (s \<noteq> [])"
| "truthy (VArr xs) = True"
| "truthy (VObj kvs) = True"

text \<open>\<^verbatim>\<open>${o.k}\<close> inside a template literal: the read, then the conversion.\<close>

definition interp :: "env \<Rightarrow> jsval \<Rightarrow> string \<Rightarrow> exn + string" where
  "interp env obj k = ebind (Get env obj k) (ToString env)"

section \<open>The component state\<close>

text \<open>
  One entry of the timeline (\<^verbatim>\<open>logs\<close>). \<^verbatim>\<open>results\<close> is present only in a batch-complete
  entry, \<^verbatim>\<open>timestamp\<close> is absent in the entry of a connection error.
\<close>

record LogEntry =
  type :: string
  content :: jsval
  results :: "jsval option"
  timestamp :: "date option"

record HitlData =
  isOpen :: bool
  question :: jsval
  sessionId :: jsval

record ProductChoices =
  isOpen :: bool
  message :: jsval
  products :: jsval
  sessionId :: jsval

record AddressChoices =
  isOpen :: bool
  message :: jsval
  addresses :: jsval
  sessionId :: jsval

record PaymentChoices =
  isOpen :: bool
  message :: jsval
  payments :: jsval
  sessionId :: jsval

record GeneralOptions =
  isOpen :: bool
  message :: jsval
  options :: jsval
  optionType :: jsval
  sessionId :: jsval

text \<open>The \<^verbatim>\<open>useState\<close> cells of \<^verbatim>\<open>App\<close> that the stream and the submissions write.\<close>

record App =
  logs :: "LogEntry list"
  isRunning :: bool
  batchStatus :: jsval
  hitlData :: HitlData
  productChoices :: ProductChoices
  addressChoices :: AddressChoices
  paymentChoices :: PaymentChoices
  generalOptions :: GeneralOptions

text \<open>
  A state setter called with a function (\<^verbatim>\<open>setLogs(prev => ...)\<close>) does not run that function
  inside the caller's \<^verbatim>\<open>try\<close>: React runs it when it processes the update. An exception
  raised inside it is an error of the render, which no handler of the program catches and
  which unmounts the component tree. The component is therefore either live, with its
  state, or crashed; updates are applied in the order of the calls.
\<close>

datatype world = Live App | Crashed

fun update :: "(App \<Rightarrow> exn + App) \<Rightarrow> world \<Rightarrow> world" where
  "update f Crashed = Crashed"
| "update f (Live st) = (case f st of Inl e \<Rightarrow> Crashed | Inr st' \<Rightarrow> Live st')"

definition setLogs :: "(LogEntry list \<Rightarrow> exn + LogEntry list) \<Rightarrow> world \<Rightarrow> world" where
  "setLogs f = update (\<lambda>st. ebind (f (logs st)) (\<lambda>l. Inr (st\<lparr>logs := l\<rparr>)))"

definition setIsRunning :: "bool \<Rightarrow> world \<Rightarrow> world" where
  "setIsRunning b = update (\<lambda>st. Inr (st\<lparr>isRunning := b\<rparr>))"

definition setBatchStatus :: "jsval \<Rightarrow> world \<Rightarrow> world" where
  "setBatchStatus v = update (\<lambda>st. Inr (st\<lparr>batchStatus := v\<rparr>))"

definition setHitlData :: "(HitlData \<Rightarrow> HitlData) \<Rightarrow> world \<Rightarrow> world" where
  "setHitlData f = update (\<lambda>st. Inr (st\<lparr>hitlData := f (hitlData st)\<rparr>))"

definition setProductChoices :: "(ProductChoices \<Rightarrow> ProductChoices) \<Rightarrow> world \<Rightarrow> world" where
  "setProductChoices f = update (\<lambda>st. Inr (st\<lparr>productChoices := f (productChoices st)\<rparr>))"

definition setAddressChoices :: "(AddressChoices \<Rightarrow> AddressChoices) \<Rightarrow> world \<Rightarrow> world" where
  "setAddressChoices f = update (\<lambda>st. Inr (st\<lparr>addressChoices := f (addressChoices st)\<rparr>))"

definition setPaymentChoices :: "(PaymentChoices \<Rightarrow> PaymentChoices) \<Rightarrow> world \<Rightarrow> world" where
  "setPaymentChoices f = update (\<lambda>st. Inr (st\<lparr>paymentChoices := f (paymentChoices st)\<rparr>))"

definition setGeneralOptions :: "(GeneralOptions \<Rightarrow> GeneralOptions) \<Rightarrow> world \<Rightarrow> world" where
  "setGeneralOptions f = update (\<lambda>st. Inr (st\<lparr>generalOptions := f (generalOptions st)\<rparr>))"

text \<open>
  \<^verbatim>\<open>setLogs(prev => [...prev, entry])\<close>. The entry (its template literal, its
  \<^verbatim>\<open>new Date()\<close>) is evaluated inside the updater, so an exception there crashes the
  component instead of reaching the caller.
\<close>

definition appendLog :: "(exn + LogEntry) \<Rightarrow> world \<Rightarrow> world" where
  "appendLog entry = setLogs (\<lambda>prev. ebind entry (\<lambda>x. Inr (prev @ [x])))"

definition textEntry :: "string \<Rightarrow> date \<Rightarrow> string \<Rightarrow> exn + LogEntry" where
  "textEntry ty now s =
     Inr \<lparr>type = ty, content = VStr s, results = None, timestamp = Some now\<rparr>"

section \<open>The event dispatcher\<close>

text \<open>\<^verbatim>\<open>JSON.parse(x)\<close> on a value: the value is converted to a string first.\<close>

definition JSON_parse_value :: "env \<Rightarrow> jsval \<Rightarrow> exn + jsval" where
  "JSON_parse_value env x =
     ebind (ToString env x) (\<lambda>s.
       case JSON_parse env s of
         None \<Rightarrow> Inl (SyntaxError (SyntaxError_message env s))
       | Some v \<Rightarrow> Inr v)"

text \<open>
  \<^verbatim>\<open>handleEvent(event)\<close>. \<open>Inl e\<close>: the call threw \<open>e\<close>; this happens only while the
  arguments of the first setter are evaluated, so no state was written. \<open>now\<close> is the
  value of \<^verbatim>\<open>new Date()\<close> for this event.
\<close>

definition handleEvent :: "env \<Rightarrow> date \<Rightarrow> jsval \<Rightarrow> world \<Rightarrow> exn + world" where
  "handleEvent env now event w =
    (if \<not> truthy event then Inr w
     else ebind (Get env event ''type'') (\<lambda>ty.
      if ty = VStr ''config'' then
        ebind (Get env event ''content'') (\<lambda>config.
          Inr (appendLog
            (ebind (interp env config ''platform'') (\<lambda>p.
             ebind (interp env config ''action'') (\<lambda>a.
             ebind (interp env config ''temperature'') (\<lambda>t.
               textEntry ''text'' now
                 (''Agent started: '' @ p @ ''/'' @ a @ '' (temperature: '' @ t @ '')''))))) w))
      else if ty = VStr ''batch_start'' then
        ebind (Get env event ''content'') (\<lambda>config.
          Inr (appendLog
            (ebind (interp env config ''total_items'') (\<lambda>n.
             ebind (interp env config ''platform'') (\<lambda>p.
               textEntry ''batch-start'' now
                 (''Batch order started: '' @ n @ '' items on '' @ p)))) w))
      else if ty = VStr ''batch_status'' then
        ebind (Get env event ''content'') (\<lambda>c. Inr (setBatchStatus c w))
      else if ty = VStr ''batch_complete'' then
        ebind (Get env event ''content'') (\<lambda>result.
          Inr (appendLog
            (ebind (interp env result ''success'') (\<lambda>s.
             ebind (interp env result ''total'') (\<lambda>t.
             ebind (interp env result ''failed'') (\<lambda>f.
             ebind (Get env result ''results'') (\<lambda>r.
               Inr \<lparr>type = ''batch-complete'',
                    content = VStr (''Batch completed: '' @ s @ ''/'' @ t @ '' succeeded, ''
                                     @ f @ '' failed''),
                    results = Some r, timestamp = Some now\<rparr>))))) w))
      else if ty = VStr ''log'' then
        Inr (appendLog
          (ebind (Get env event ''content'') (\<lambda>c.
             Inr \<lparr>type = ''text'', content = c, results = None, timestamp = Some now\<rparr>)) w)
      else if ty = VStr ''request_input'' then
        ebind (Get env event ''content'') (\<lambda>c.
        ebind (Get env event ''session_id'') (\<lambda>sid.
          Inr (setHitlData (\<lambda>_. \<lparr>HitlData.isOpen = True, question = c,
                                   HitlData.sessionId = sid\<rparr>) w)))
      else if ty = VStr ''product_choices'' then
        ebind (Get env event ''content'') (\<lambda>c.
        ebind (Get env c ''message'') (\<lambda>m.
        ebind (Get env c ''products'') (\<lambda>ps.
        ebind (Get env event ''session_id'') (\<lambda>sid.
          Inr (appendLog
            (ebind (interp env ps ''length'') (\<lambda>n.
               textEntry ''text'' now (''Found '' @ n @ '' products. Please select one...'')))
            (setProductChoices (\<lambda>_. \<lparr>ProductChoices.isOpen = True,
                 ProductChoices.message = m, products = ps,
                 ProductChoices.sessionId = sid\<rparr>) w))))))
      else if ty = VStr ''address_choices'' then
        ebind (Get env event ''content'') (\<lambda>c.
        ebind (Get env c ''message'') (\<lambda>m.
        ebind (Get env c ''addresses'') (\<lambda>as.
        ebind (Get env event ''session_id'') (\<lambda>sid.
          Inr (appendLog
            (ebind (interp env as ''length'') (\<lambda>n.
               textEntry ''text'' now
                 (''Found '' @ n @ '' delivery addresses. Please select one...'')))
            (setAddressChoices (\<lambda>_. \<lparr>AddressChoices.isOpen = True,
                 AddressChoices.message = m, addresses = as,
                 AddressChoices.sessionId = sid\<rparr>) w))))))
      else if ty = VStr ''payment_choices'' then
        ebind (Get env event ''content'') (\<lambda>c.
        ebind (Get env c ''message'') (\<lambda>m.
        ebind (Get env c ''payments'') (\<lambda>ps.
        ebind (Get env event ''session_id'') (\<lambda>sid.
          Inr (appendLog
            (textEntry ''text'' now ''Available payment methods. Please select one...'')
            (setPaymentChoices (\<lambda>_. \<lparr>PaymentChoices.isOpen = True,
                 PaymentChoices.message = m, payments = ps,
                 PaymentChoices.sessionId = sid\<rparr>) w))))))
      else if ty = VStr ''options'' then
        ebind (Get env event ''content'') (\<lambda>c.
        ebind (Get env c ''message'') (\<lambda>m.
        ebind (Get env c ''options'') (\<lambda>os.
        ebind (Get env c ''option_type'') (\<lambda>ot.
        ebind (Get env event ''session_id'') (\<lambda>sid.
          Inr (appendLog
            (ebind (interp env c ''message'') (\<lambda>s. textEntry ''text'' now s))
            (setGeneralOptions (\<lambda>_. \<lparr>GeneralOptions.isOpen = True,
                 GeneralOptions.message = m, options = os,
                 optionType = (if truthy ot then ot else VStr ''general''),
                 GeneralOptions.sessionId = sid\<rparr>) w)))))))
      else if ty = VStr ''result'' then
        ebind (Get env event ''content'') (\<lambda>c.
          case JSON_parse_value env c of
            Inr parsed \<Rightarrow>
              Inr (appendLog (Inr \<lparr>type = ''result-json'', content = parsed,
                                    results = None, timestamp = Some now\<rparr>) w)
          | Inl e \<Rightarrow>
              Inr (appendLog
                (ebind (ToString env c) (\<lambda>s.
                   textEntry ''success'' now (''**Result:** '' @ s))) w))
      else if ty = VStr ''error'' then
        Inr (appendLog
          (ebind (interp env event ''content'') (\<lambda>s.
             textEntry ''error'' now (''**Error:** '' @ s))) w)
      else Inr w))"

section \<open>The frame decoder and the two runs\<close>

text \<open>
  \<^verbatim>\<open>s.split(sep)\<close> for a non-empty separator: the pieces between the occurrences of
  \<open>sep\<close>, found from left to right without overlap; the empty string gives one empty piece.
\<close>

function split :: "string \<Rightarrow> string \<Rightarrow> string list" where
  "split sep [] = [[]]"
| "split sep (c # cs) =
     (if sep \<noteq> [] \<and> take (length sep) (c # cs) = sep
      then [] # split sep (drop (length sep - 1) cs)
      else (case split sep cs of p # ps \<Rightarrow> (c # p) # ps | [] \<Rightarrow> [[c]]))"
  by pat_completeness auto
termination
  by (relation "measure (\<lambda>(sep, s). length s)") auto

definition startsWith :: "string \<Rightarrow> string \<Rightarrow> bool" where
  "startsWith s p = (take (length p) s = p)"

definition slice :: "nat \<Rightarrow> string \<Rightarrow> string" where
  "slice n s = drop n s"

text \<open>
  The body of \<^verbatim>\<open>for (const line of lines)\<close>, the same in \<^verbatim>\<open>runAgent\<close> and
  \<^verbatim>\<open>runBatchAgent\<close>: a piece that does not start with the marker is skipped, an empty
  payload is skipped, and whatever \<^verbatim>\<open>JSON.parse\<close> or \<^verbatim>\<open>handleEvent\<close> throw is caught and
  only printed on the console (\<open>dispatch\<close> is the call of \<^verbatim>\<open>handleEvent\<close> under that
  \<^verbatim>\<open>catch\<close>).
\<close>

definition dispatch :: "env \<Rightarrow> date \<Rightarrow> jsval \<Rightarrow> world \<Rightarrow> world" where
  "dispatch env now event w =
     (case handleEvent env now event w of Inl e \<Rightarrow> w | Inr w' \<Rightarrow> w')"

definition processLine :: "env \<Rightarrow> date \<Rightarrow> string \<Rightarrow> world \<Rightarrow> world" where
  "processLine env now line w =
     (if startsWith line ''data: '' then
        (let jsonStr = slice 6 line in
         if jsonStr = [] then w
         else case JSON_parse env jsonStr of
                None \<Rightarrow> w
              | Some event \<Rightarrow> dispatch env now event w)
      else w)"

text \<open>\<open>clock i\<close> is the reading of the clock while the \<open>i\<close>-th piece of the run is handled.\<close>

fun forLines :: "env \<Rightarrow> (nat \<Rightarrow> date) \<Rightarrow> nat \<Rightarrow> string list \<Rightarrow> world \<Rightarrow> world" where
  "forLines env clock i [] w = w"
| "forLines env clock i (line # lines) w =
     forLines env clock (Suc i) lines (processLine env (clock i) line w)"

definition processChunk :: "env \<Rightarrow> (nat \<Rightarrow> date) \<Rightarrow> nat \<Rightarrow> string \<Rightarrow> world \<Rightarrow> world" where
  "processChunk env clock i chunk w = forLines env clock i (split ''\<newline>\<newline>'' chunk) w"

text \<open>
  What \<^verbatim>\<open>reader.read()\<close> delivers until the stream is done: decoded chunks, or a rejection.
  The list is the finite sequence of reads of one response; the end of the list is
  \<^verbatim>\<open>done\<close>. \<open>Some e\<close> is the exception that left the \<^verbatim>\<open>while\<close> loop.
\<close>

datatype read = Chunk string | ReadError exn

fun readLoop :: "env \<Rightarrow> (nat \<Rightarrow> date) \<Rightarrow> nat \<Rightarrow> read list \<Rightarrow> world \<Rightarrow> exn option \<times> world" where
  "readLoop env clock i [] w = (None, w)"
| "readLoop env clock i (ReadError e # rs) w = (Some e, w)"
| "readLoop env clock i (Chunk chunk # rs) w =
     readLoop env clock (i + length (split ''\<newline>\<newline>'' chunk)) rs
       (processChunk env clock i chunk w)"

text \<open>
  The answer to the start request: an exception before the first read (\<^verbatim>\<open>fetch\<close> rejects,
  the response has no body), or the reads of the body.
\<close>

datatype response = FetchError exn | Body "read list"

text \<open>The statements of a run before its request is sent.\<close>

definition runAgent_start :: "world \<Rightarrow> world" where
  "runAgent_start w = setLogs (\<lambda>_. Inr []) (setIsRunning True w)"

definition runBatchAgent_start :: "world \<Rightarrow> world" where
  "runBatchAgent_start w =
     setBatchStatus (VArr []) (setLogs (\<lambda>_. Inr []) (setIsRunning True w))"

text \<open>The \<^verbatim>\<open>try\<close> / \<^verbatim>\<open>catch\<close> / \<^verbatim>\<open>finally\<close> around the read loop.\<close>

definition stream :: "env \<Rightarrow> (nat \<Rightarrow> date) \<Rightarrow> response \<Rightarrow> world \<Rightarrow> world" where
  "stream env clock resp w =
     (let (err, w1) = (case resp of
                         FetchError e \<Rightarrow> (Some e, w)
                       | Body reads \<Rightarrow> readLoop env clock 0 reads w);
          w2 = (case err of
                  None \<Rightarrow> w1
                | Some error \<Rightarrow>
                    appendLog (Inr \<lparr>type = ''error'',
                      content = VStr (''Connection error: '' @ exn_message error),
                      results = None, timestamp = None\<rparr>) w1)
      in setIsRunning False w2)"

definition runAgent :: "env \<Rightarrow> (nat \<Rightarrow> date) \<Rightarrow> response \<Rightarrow> world \<Rightarrow> world" where
  "runAgent env clock resp w = stream env clock resp (runAgent_start w)"

definition runBatchAgent :: "env \<Rightarrow> (nat \<Rightarrow> date) \<Rightarrow> response \<Rightarrow> world \<Rightarrow> world" where
  "runBatchAgent env clock resp w = stream env clock resp (runBatchAgent_start w)"

section \<open>Submitting an answer\<close>

text \<open>
  The body of the request to \<^verbatim>\<open>/agent/input\<close>, and what \<^verbatim>\<open>fetch\<close> and
  \<^verbatim>\<open>response.json()\<close> give back: a rejection of \<^verbatim>\<open>fetch\<close>, or a status and either the
  parsed body or the exception of \<^verbatim>\<open>response.json()\<close>. \<^verbatim>\<open>response.ok\<close> is the status being
  in the range 200 to 299. The remote executor is the function \<open>post\<close> from requests to
  answers.
\<close>

record request =
  session_id :: jsval
  input_data :: jsval

datatype answer = Rejected exn | Http nat "exn + jsval"

definition ok :: "nat \<Rightarrow> bool" where
  "ok status = (200 \<le> status \<and> status \<le> 299)"

text \<open>
  The statements that the five handlers share, from \<^verbatim>\<open>fetch\<close> to the second
  \<^verbatim>\<open>throw\<close>: \<open>Inl e\<close> is the exception that reaches the \<^verbatim>\<open>catch\<close>, \<open>Inr ()\<close> means that
  the statements after them run.
\<close>

definition resume :: "env \<Rightarrow> answer \<Rightarrow> exn + unit" where
  "resume env a =
     (case a of
        Rejected e \<Rightarrow> Inl e
      | Http status body \<Rightarrow>
          if \<not> ok status then
            ebind (ToString env (VNum (real status))) (\<lambda>s. Inl (Error (''Server error: '' @ s)))
          else
            ebind body (\<lambda>result.
            ebind (Get env result ''status'') (\<lambda>st.
              if st = VStr ''error'' then
                ebind (Get env result ''message'') (\<lambda>m.
                ebind (ToString env (if truthy m then m else VStr ''Unknown error'')) (\<lambda>ms.
                  Inl (Error ms)))
              else Inr ())))"

definition handleHitlSubmit ::
  "env \<Rightarrow> date \<Rightarrow> (request \<Rightarrow> answer) \<Rightarrow> jsval \<Rightarrow> string \<Rightarrow> world \<Rightarrow> world" where
  "handleHitlSubmit env now post sid input w =
     (case resume env (post \<lparr>session_id = sid, input_data = VStr input\<rparr>) of
        Inr _ \<Rightarrow> setHitlData (\<lambda>prev. prev\<lparr>HitlData.isOpen := False\<rparr>) w
      | Inl error \<Rightarrow>
          appendLog (textEntry ''error'' now
            (''Failed to submit input: '' @ exn_message error)) w)"

text \<open>\<^verbatim>\<open>String(selectedIndex)\<close>, the index being the position of the card clicked.\<close>

definition selection :: "env \<Rightarrow> jsval \<Rightarrow> nat \<Rightarrow> request" where
  "selection env sid selectedIndex =
     \<lparr>session_id = sid, input_data = VStr (Number_toString env (real selectedIndex))\<rparr>"

definition handleProductSelect ::
  "env \<Rightarrow> date \<Rightarrow> (request \<Rightarrow> answer) \<Rightarrow> jsval \<Rightarrow> nat \<Rightarrow> jsval \<Rightarrow> world \<Rightarrow> world" where
  "handleProductSelect env now post sid selectedIndex product w =
     (case resume env (post (selection env sid selectedIndex)) of
        Inr _ \<Rightarrow>
          appendLog
            (ebind (interp env product ''product_name'') (\<lambda>n.
               textEntry ''text'' now (''Selected: '' @ n)))
            (setProductChoices (\<lambda>prev. prev\<lparr>ProductChoices.isOpen := False\<rparr>) w)
      | Inl error \<Rightarrow>
          appendLog (textEntry ''error'' now
            (''Failed to submit selection: '' @ exn_message error)) w)"

definition handleAddressSelect ::
  "env \<Rightarrow> date \<Rightarrow> (request \<Rightarrow> answer) \<Rightarrow> jsval \<Rightarrow> nat \<Rightarrow> jsval \<Rightarrow> world \<Rightarrow> world" where
  "handleAddressSelect env now post sid selectedIndex address w =
     (case resume env (post (selection env sid selectedIndex)) of
        Inr _ \<Rightarrow>
          appendLog
            (ebind (interp env address ''name'') (\<lambda>n.
             ebind (interp env address ''address'') (\<lambda>a.
               textEntry ''text'' now (''Selected address: '' @ n @ '' - '' @ a))))
            (setAddressChoices (\<lambda>prev. prev\<lparr>AddressChoices.isOpen := False\<rparr>) w)
      | Inl error \<Rightarrow>
          appendLog (textEntry ''error'' now
            (''Failed to submit selection: '' @ exn_message error)) w)"

definition handlePaymentSelect ::
  "env \<Rightarrow> date \<Rightarrow> (request \<Rightarrow> answer) \<Rightarrow> jsval \<Rightarrow> nat \<Rightarrow> jsval \<Rightarrow> world \<Rightarrow> world" where
  "handlePaymentSelect env now post sid selectedIndex payment w =
     (case resume env (post (selection env sid selectedIndex)) of
        Inr _ \<Rightarrow>
          appendLog
            (ebind (interp env payment ''method'') (\<lambda>m.
               textEntry ''text'' now (''Selected payment: '' @ m)))
            (setPaymentChoices (\<lambda>prev. prev\<lparr>PaymentChoices.isOpen := False\<rparr>) w)
      | Inl error \<Rightarrow>
          appendLog (textEntry ''error'' now
            (''Failed to submit selection: '' @ exn_message error)) w)"

definition handleOptionSelect ::
  "env \<Rightarrow> date \<Rightarrow> (request \<Rightarrow> answer) \<Rightarrow> jsval \<Rightarrow> nat \<Rightarrow> jsval \<Rightarrow> world \<Rightarrow> world" where
  "handleOptionSelect env now post sid selectedIndex option w =
     (case resume env (post (selection env sid selectedIndex)) of
        Inr _ \<Rightarrow>
          appendLog
            (ebind (interp env option ''label'') (\<lambda>l.
               textEntry ''text'' now (''Selected: '' @ l)))
            (setGeneralOptions (\<lambda>prev. prev\<lparr>GeneralOptions.isOpen := False\<rparr>) w)
      | Inl error \<Rightarrow>
          appendLog (textEntry ''error'' now
            (''Failed to submit selection: '' @ exn_message error)) w)"

section \<open>A platform to run the program on\<close>

text \<open>
  An executable instance of the platform, to evaluate the program on concrete inputs: a
  parser for JSON texts over 8-bit characters (objects, arrays, strings with the simple
  escapes, numbers, the three literals, white space around every token; a repeated key
  keeps its last value), and the printing of the integers. The parser gets as fuel the
  length of the text; every call consumes a character.
\<close>

definition is_ws :: "char \<Rightarrow> bool" where
  "is_ws c = (c = CHR '' '' \<or> c = CHR 0x0A \<or> c = CHR 0x0D \<or> c = CHR 0x09)"

definition skip_ws :: "string \<Rightarrow> string" where
  "skip_ws = dropWhile is_ws"

definition is_digit :: "char \<Rightarrow> bool" where
  "is_digit c = ((48 :: nat) \<le> of_char c \<and> of_char c \<le> (57 :: nat))"

definition digit_val :: "char \<Rightarrow> nat" where
  "digit_val c = of_char c - 48"

definition digits_val :: "string \<Rightarrow> nat" where
  "digits_val ds = foldl (\<lambda>n d. 10 * n + digit_val d) 0 ds"

text \<open>The characters of a string literal after its opening quote.\<close>

fun parse_string :: "string \<Rightarrow> (string \<times> string) option" where
  "parse_string [] = None"
| "parse_string (c # cs) =
     (if c = CHR 0x22 then Some ([], cs)
      else if c = CHR 0x5C then
        (case cs of
           [] \<Rightarrow> None
         | e # r \<Rightarrow>
             (case (if e = CHR 0x22 \<or> e = CHR 0x5C \<or> e = CHR ''/'' then Some e
                    else if e = CHR ''n'' then Some (CHR 0x0A)
                    else if e = CHR ''r'' then Some (CHR 0x0D)
                    else if e = CHR ''t'' then Some (CHR 0x09)
                    else if e = CHR ''b'' then Some (CHR 0x08)
                    else if e = CHR ''f'' then Some (CHR 0x0C)
                    else None) of
                None \<Rightarrow> None
              | Some x \<Rightarrow> map_option (\<lambda>(s, r'). (x # s, r')) (parse_string r)))
      else if of_char c < (32 :: nat) then None
      else map_option (\<lambda>(s, r). (c # s, r)) (parse_string cs))"

text \<open>A number: sign, integer part without a leading zero, fraction, exponent.\<close>

definition parse_number :: "string \<Rightarrow> (real \<times> string) option" where
  "parse_number cs =
     (let (neg, r0) = (case cs of c # r \<Rightarrow> if c = CHR ''-'' then (True, r) else (False, cs)
                       | [] \<Rightarrow> (False, cs));
          ip = takeWhile is_digit r0; r1 = dropWhile is_digit r0
      in if ip = [] \<or> (hd ip = CHR ''0'' \<and> length ip > 1) then None
         else
           (let (fp, r2) = (case r1 of c # r \<Rightarrow>
                              if c = CHR ''.'' then (Some (takeWhile is_digit r), dropWhile is_digit r)
                              else (None, r1)
                            | [] \<Rightarrow> (None, r1))
            in if fp = Some [] then None
               else
                 (let fd = (case fp of Some ds \<Rightarrow> ds | None \<Rightarrow> []);
                      m = real (digits_val (ip @ fd)) / 10 ^ length fd;
                      (ex, r3) = (case r2 of c # r \<Rightarrow>
                          if c = CHR ''e'' \<or> c = CHR ''E'' then
                            (let (eneg, r') = (case r of s # t \<Rightarrow>
                                   if s = CHR ''-'' then (True, t)
                                   else if s = CHR ''+'' then (False, t) else (False, r)
                                 | [] \<Rightarrow> (False, r))
                             in (Some (eneg, takeWhile is_digit r'), dropWhile is_digit r'))
                          else (None, r2)
                        | [] \<Rightarrow> (None, r2))
                  in case ex of
                       None \<Rightarrow> Some (if neg then - m else m, r3)
                     | Some (eneg, ds) \<Rightarrow>
                         if ds = [] then None
                         else Some ((if neg then - m else m) *
                                    (if eneg then 1 / 10 ^ digits_val ds else 10 ^ digits_val ds),
                                    r3))))"

fun parse_value :: "nat \<Rightarrow> string \<Rightarrow> (jsval \<times> string) option"
  and parse_elements :: "nat \<Rightarrow> string \<Rightarrow> jsval list \<Rightarrow> (jsval \<times> string) option"
  and parse_members :: "nat \<Rightarrow> string \<Rightarrow> (string \<times> jsval) list \<Rightarrow> (jsval \<times> string) option" where
  "parse_value 0 cs = None"
| "parse_value (Suc n) cs =
     (case skip_ws cs of
        [] \<Rightarrow> None
      | c # r \<Rightarrow>
          if c = CHR ''{'' then
            (case skip_ws r of
               [] \<Rightarrow> None
             | d # r' \<Rightarrow> if d = CHR ''}'' then Some (VObj [], r') else parse_members n (d # r') [])
          else if c = CHR ''['' then
            (case skip_ws r of
               [] \<Rightarrow> None
             | d # r' \<Rightarrow> if d = CHR '']'' then Some (VArr [], r') else parse_elements n (d # r') [])
          else if c = CHR 0x22 then map_option (\<lambda>(s, r'). (VStr s, r')) (parse_string r)
          else if take 4 (c # r) = ''true'' then Some (VBool True, drop 4 (c # r))
          else if take 5 (c # r) = ''false'' then Some (VBool False, drop 5 (c # r))
          else if take 4 (c # r) = ''null'' then Some (VNull, drop 4 (c # r))
          else map_option (\<lambda>(x, r'). (VNum x, r')) (parse_number (c # r)))"
| "parse_elements 0 cs acc = None"
| "parse_elements (Suc n) cs acc =
     (case parse_value n cs of
        None \<Rightarrow> None
      | Some (v, r) \<Rightarrow>
          (case skip_ws r of
             [] \<Rightarrow> None
           | c # r' \<Rightarrow>
               if c = CHR '','' then parse_elements n r' (acc @ [v])
               else if c = CHR '']'' then Some (VArr (acc @ [v]), r')
               else None))"
| "parse_members 0 cs acc = None"
| "parse_members (Suc n) cs acc =
     (case skip_ws cs of
        [] \<Rightarrow> None
      | q # r0 \<Rightarrow>
          if q \<noteq> CHR 0x22 then None
          else
            (case parse_string r0 of
               None \<Rightarrow> None
             | Some (k, r1) \<Rightarrow>
                 (case skip_ws r1 of
                    [] \<Rightarrow> None
                  | c # r2 \<Rightarrow>
                      if c \<noteq> CHR '':'' then None
                      else
                        (case parse_value n r2 of
                           None \<Rightarrow> None
                         | Some (v, r3) \<Rightarrow>
                             (case skip_ws r3 of
                                [] \<Rightarrow> None
                              | d # r4 \<Rightarrow>
                                  if d = CHR '','' then parse_members n r4 (AList.update k v acc)
                                  else if d = CHR ''}'' then Some (VObj (AList.update k v acc), r4)
                                  else None)))))"

definition parse_json :: "string \<Rightarrow> jsval option" where
  "parse_json s =
     (case parse_value (Suc (length s)) s of
        None \<Rightarrow> None
      | Some (v, r) \<Rightarrow> if skip_ws r = [] then Some v else None)"

fun show_nat :: "nat \<Rightarrow> string" where
  "show_nat n =
     (if n < 10 then [''0123456789'' ! n]
      else show_nat (n div 10) @ [''0123456789'' ! (n mod 10)])"

definition show_number :: "real \<Rightarrow> string" where
  "show_number r =
     (if r < 0 then ''-'' @ show_nat (nat \<lfloor>- r\<rfloor>) else show_nat (nat \<lfloor>r\<rfloor>))"

definition js :: env where
  "js = \<lparr>JSON_parse = parse_json, Number_toString = show_number,
         TypeError_message = (\<lambda>k. ''Cannot read properties of undefined (reading '' @ k @ '')''),
         ToPrimitive_message = ''Cannot convert object to primitive value'',
         SyntaxError_message = (\<lambda>s. ''Unexpected token'')\<rparr>"

text \<open>The state of the component when it is mounted.\<close>

definition initial :: App where
  "initial =
     \<lparr>logs = [], isRunning = False, batchStatus = VArr [],
      hitlData = \<lparr>HitlData.isOpen = False, question = VStr [], HitlData.sessionId = VStr []\<rparr>,
      productChoices = \<lparr>ProductChoices.isOpen = False, ProductChoices.message = VStr [],
        products = VArr [], ProductChoices.sessionId = VStr []\<rparr>,
      addressChoices = \<lparr>AddressChoices.isOpen = False, AddressChoices.message = VStr [],
        addresses = VArr [], AddressChoices.sessionId = VStr []\<rparr>,
      paymentChoices = \<lparr>PaymentChoices.isOpen = False, PaymentChoices.message = VStr [],
        payments = VArr [], PaymentChoices.sessionId = VStr []\<rparr>,
      generalOptions = \<lparr>GeneralOptions.isOpen = False, GeneralOptions.message = VStr [],
        options = VArr [], optionType = VStr ''general'', GeneralOptions.sessionId = VStr []\<rparr>\<rparr>"

section \<open>Notions used in the statements\<close>

text \<open>
  The value of property \<open>k\<close> of a value that can be read from, and an event of type \<open>t\<close>:
  a value that passes \<^verbatim>\<open>if (!event) return\<close> and whose \<^verbatim>\<open>type\<close> is strictly equal to \<open>t\<close>.
\<close>

definition field :: "env \<Rightarrow> jsval \<Rightarrow> string \<Rightarrow> jsval" where
  "field env v k = (case Get env v k of Inr x \<Rightarrow> x | Inl e \<Rightarrow> VUndefined)"

definition isEvent :: "env \<Rightarrow> string \<Rightarrow> jsval \<Rightarrow> bool" where
  "isEvent env t ev = (truthy ev \<and> Get env ev ''type'' = Inr (VStr t))"

text \<open>Decoded events handled one after the other, each with its reading of the clock.\<close>

fun dispatchAll :: "env \<Rightarrow> (date \<times> jsval) list \<Rightarrow> world \<Rightarrow> world" where
  "dispatchAll env [] w = w"
| "dispatchAll env (x # xs) w = dispatchAll env xs (dispatch env (fst x) (snd x) w)"

text \<open>The two snapshots of the batch example, and the event that carries a snapshot.\<close>

definition snapshot1 :: jsval where
  "snapshot1 = VArr [VObj [(''idx'', VNum 0), (''status'', VStr ''pending'')]]"

definition snapshot2 :: jsval where
  "snapshot2 = VArr [VObj [(''idx'', VNum 0), (''status'', VStr ''success'')],
                     VObj [(''idx'', VNum 1), (''status'', VStr ''pending'')]]"

definition batch_status :: "jsval \<Rightarrow> jsval" where
  "batch_status c = VObj [(''type'', VStr ''batch_status''), (''content'', c)]"

text \<open>
  The five decision families and the type of the event that opens each. The record
  \<open>PendingPrompt\<close> is the prompt of the specification's data model; \<open>prompt f st\<close> reads the
  prompt of family \<open>f\<close> off the state cell of that family (the state has one cell per
  family, so a family never has two prompts), and \<open>offered env f ev\<close> is the prompt that
  an opening event describes.
\<close>

datatype family = FreeText | Product | Address | Payment | Options

fun openedBy :: "family \<Rightarrow> string" where
  "openedBy FreeText = ''request_input''"
| "openedBy Product = ''product_choices''"
| "openedBy Address = ''address_choices''"
| "openedBy Payment = ''payment_choices''"
| "openedBy Options = ''options''"

record PendingPrompt =
  isOpen :: bool
  sessionId :: jsval
  message :: jsval
  choices :: "jsval option"
  kind :: "jsval option"

fun prompt :: "family \<Rightarrow> App \<Rightarrow> PendingPrompt" where
  "prompt FreeText st =
     \<lparr>isOpen = HitlData.isOpen (hitlData st), sessionId = HitlData.sessionId (hitlData st),
      message = question (hitlData st), choices = None, kind = None\<rparr>"
| "prompt Product st =
     \<lparr>isOpen = ProductChoices.isOpen (productChoices st),
      sessionId = ProductChoices.sessionId (productChoices st),
      message = ProductChoices.message (productChoices st),
      choices = Some (products (productChoices st)), kind = None\<rparr>"
| "prompt Address st =
     \<lparr>isOpen = AddressChoices.isOpen (addressChoices st),
      sessionId = AddressChoices.sessionId (addressChoices st),
      message = AddressChoices.message (addressChoices st),
      choices = Some (addresses (addressChoices st)), kind = None\<rparr>"
| "prompt Payment st =
     \<lparr>isOpen = PaymentChoices.isOpen (paymentChoices st),
      sessionId = PaymentChoices.sessionId (paymentChoices st),
      message = PaymentChoices.message (paymentChoices st),
      choices = Some (payments (paymentChoices st)), kind = None\<rparr>"
| "prompt Options st =
     \<lparr>isOpen = GeneralOptions.isOpen (generalOptions st),
      sessionId = GeneralOptions.sessionId (generalOptions st),
      message = GeneralOptions.message (generalOptions st),
      choices = Some (options (generalOptions st)),
      kind = Some (optionType (generalOptions st))\<rparr>"

fun choiceKey :: "family \<Rightarrow> string" where
  "choiceKey FreeText = []"
| "choiceKey Product = ''products''"
| "choiceKey Address = ''addresses''"
| "choiceKey Payment = ''payments''"
| "choiceKey Options = ''options''"

definition offered :: "env \<Rightarrow> family \<Rightarrow> jsval \<Rightarrow> PendingPrompt" where
  "offered env f ev =
     (let c = field env ev ''content'' in
      \<lparr>isOpen = True,
       sessionId = field env ev ''session_id'',
       message = (if f = FreeText then c else field env c ''message''),
       choices = (if f = FreeText then None else Some (field env c (choiceKey f))),
       kind = (if f = Options
               then Some (if truthy (field env c ''option_type'')
                          then field env c ''option_type'' else VStr ''general'')
               else None)\<rparr>)"

text \<open>
  A payload as the data model describes it: for a choice family an object whose
  \<^verbatim>\<open>message\<close> is a string and whose list of choices is an array.
\<close>

fun isStr :: "jsval \<Rightarrow> bool" where
  "isStr (VStr s) = True"
| "isStr v = False"

fun isArr :: "jsval \<Rightarrow> bool" where
  "isArr (VArr xs) = True"
| "isArr v = False"

fun isObj :: "jsval \<Rightarrow> bool" where
  "isObj (VObj kvs) = True"
| "isObj v = False"

definition wellFormed :: "env \<Rightarrow> family \<Rightarrow> jsval \<Rightarrow> bool" where
  "wellFormed env f ev =
     (f = FreeText \<or>
      (let c = field env ev ''content'' in
       isObj c \<and> isStr (field env c ''message'') \<and> isArr (field env c (choiceKey f))))"

text \<open>The timeline that the operator sees; a crashed component shows nothing.\<close>

fun timeline :: "world \<Rightarrow> LogEntry list" where
  "timeline (Live st) = logs st"
| "timeline Crashed = []"

text \<open>
  An answer of the remote executor that is a success (HTTP ok, a body that parses, and a
  \<^verbatim>\<open>status\<close> other than \<^verbatim>\<open>error\<close>), and one that is a failure in the sense of the
  specification (HTTP not ok, or a body whose \<^verbatim>\<open>status\<close> is \<^verbatim>\<open>error\<close>). \<open>failure\<close> is the
  message of the exception that a failed submission ends with.
\<close>

definition succeeded :: "env \<Rightarrow> answer \<Rightarrow> bool" where
  "succeeded env a =
     (case a of
        Rejected e \<Rightarrow> False
      | Http status body \<Rightarrow>
          ok status \<and>
          (case body of
             Inl e \<Rightarrow> False
           | Inr result \<Rightarrow>
               (case Get env result ''status'' of
                  Inl e \<Rightarrow> False
                | Inr s \<Rightarrow> s \<noteq> VStr ''error'')))"

definition refused :: "env \<Rightarrow> answer \<Rightarrow> bool" where
  "refused env a =
     (case a of
        Rejected e \<Rightarrow> False
      | Http status body \<Rightarrow>
          \<not> ok status \<or>
          (case body of
             Inl e \<Rightarrow> False
           | Inr result \<Rightarrow> Get env result ''status'' = Inr (VStr ''error'')))"

definition failure :: "env \<Rightarrow> answer \<Rightarrow> string" where
  "failure env a = (case resume env a of Inl e \<Rightarrow> exn_message e | Inr u \<Rightarrow> [])"

definition errorEntry :: "date \<Rightarrow> string \<Rightarrow> LogEntry" where
  "errorEntry now s = \<lparr>type = ''error'', content = VStr s, results = None, timestamp = Some now\<rparr>"

definition textLog :: "date \<Rightarrow> string \<Rightarrow> LogEntry" where
  "textLog now s = \<lparr>type = ''text'', content = VStr s, results = None, timestamp = Some now\<rparr>"

text \<open>Example states and answers: every prompt open, and executors that accept or refuse.\<close>

definition asking :: App where
  "asking =
     \<lparr>logs = [textLog 1 ''Which colour?''], isRunning = True,
      batchStatus = snapshot1,
      hitlData = \<lparr>HitlData.isOpen = True, question = VStr ''Which colour?'',
        HitlData.sessionId = VStr ''s1''\<rparr>,
      productChoices = \<lparr>ProductChoices.isOpen = True, ProductChoices.message = VStr ''Pick one'',
        products = VArr [VObj [(''product_name'', VStr ''Lamp'')]],
        ProductChoices.sessionId = VStr ''s2''\<rparr>,
      addressChoices = \<lparr>AddressChoices.isOpen = True, AddressChoices.message = VStr ''Where to?'',
        addresses = VArr [VObj [(''name'', VStr ''Home''), (''address'', VStr ''1 Main St'')]],
        AddressChoices.sessionId = VStr ''s3''\<rparr>,
      paymentChoices = \<lparr>PaymentChoices.isOpen = True, PaymentChoices.message = VStr ''Pay how?'',
        payments = VArr [VObj [(''method'', VStr ''Card'')]],
        PaymentChoices.sessionId = VStr ''s4''\<rparr>,
      generalOptions = \<lparr>GeneralOptions.isOpen = True, GeneralOptions.message = VStr ''Size?'',
        options = VArr [VObj [(''label'', VStr ''Large'')]], optionType = VStr ''general'',
        GeneralOptions.sessionId = VStr ''s5''\<rparr>\<rparr>"

definition accepting :: "request \<Rightarrow> answer" where
  "accepting r = Http 200 (Inr (VObj [(''status'', VStr ''ok'')]))"

definition refusing :: "request \<Rightarrow> answer" where
  "refusing r = Http 200 (Inr (VObj [(''status'', VStr ''error''), (''message'', VStr ''No such session'')]))"

definition failing :: "request \<Rightarrow> answer" where
  "failing r = Http 500 (Inl (SyntaxError ''Unexpected token''))"

text \<open>A second product prompt, sent while the first one of \<open>asking\<close> is still open.\<close>

definition secondProducts :: jsval where
  "secondProducts =
     VObj [(''type'', VStr ''product_choices''),
           (''content'', VObj [(''message'', VStr ''Pick again''),
              (''products'', VArr [VObj [(''product_name'', VStr ''Desk'')],
                                   VObj [(''product_name'', VStr ''Chair'')]])]),
           (''session_id'', VStr ''s9'')]"

text \<open>The event that carries a result, with the two contents of the example.\<close>

definition resultEvent :: "string \<Rightarrow> jsval" where
  "resultEvent s = VObj [(''type'', VStr ''result''), (''content'', VStr s)]"

definition structured :: string where
  \<open>structured = ''{"product_name":"X","price":"$9"}''\<close>

text \<open>
  The line feed, the frames of the examples, and a piece of a chunk that the loop skips:
  it fails the marker check, or its payload is empty, or its payload is not JSON.
\<close>

definition LF :: char where
  "LF = CHR 0x0A"

definition logText :: "string \<Rightarrow> string" where
  \<open>logText s = ''{"type":"log","content":"'' @ s @ ''"}''\<close>

definition logEvent :: "string \<Rightarrow> jsval" where
  "logEvent s = VObj [(''type'', VStr ''log''), (''content'', VStr s)]"

definition dropped :: "env \<Rightarrow> string \<Rightarrow> bool" where
  "dropped env line =
     (\<not> startsWith line ''data: '' \<or> slice 6 line = [] \<or> JSON_parse env (slice 6 line) = None)"

text \<open>The chunk of the example: a malformed frame between two well-formed ones.\<close>

definition exampleChunk :: string where
  \<open>exampleChunk =
     ''data: {"type":"log","content":"a"}\<newline>\<newline>data: not-json\<newline>\<newline>data: {"type":"log","content":"b"}\<newline>\<newline>''\<close>

text \<open>
  A well-formed frame without the marker, and a marked frame whose delimiter is cut by
  the end of the read.
\<close>

definition unmarkedChunk :: string where
  \<open>unmarkedChunk = ''{"type":"log","content":"a"}\<newline>\<newline>''\<close>

definition cutChunk :: string where
  \<open>cutChunk = ''data: {"type":"log","content":"a"}\<newline>''\<close>

text \<open>
  The events that the decoder gets out of the pieces of a chunk, and out of the reads of
  a stream, in the order in which it handles them, each with its reading of the clock;
  and the entries that one event contributes to the timeline, read off a run of the
  dispatcher on the empty timeline.
\<close>

definition decodeLine :: "env \<Rightarrow> string \<Rightarrow> jsval option" where
  "decodeLine env line =
     (if startsWith line ''data: '' \<and> slice 6 line \<noteq> [] then JSON_parse env (slice 6 line)
      else None)"

fun eventsOf :: "env \<Rightarrow> (nat \<Rightarrow> date) \<Rightarrow> nat \<Rightarrow> string list \<Rightarrow> (date \<times> jsval) list" where
  "eventsOf env clock i [] = []"
| "eventsOf env clock i (line # lines) =
     (case decodeLine env line of None \<Rightarrow> [] | Some ev \<Rightarrow> [(clock i, ev)])
     @ eventsOf env clock (Suc i) lines"

fun decoded :: "env \<Rightarrow> (nat \<Rightarrow> date) \<Rightarrow> nat \<Rightarrow> read list \<Rightarrow> (date \<times> jsval) list" where
  "decoded env clock i [] = []"
| "decoded env clock i (ReadError e # rs) = []"
| "decoded env clock i (Chunk chunk # rs) =
     eventsOf env clock i (split ''\<newline>\<newline>'' chunk)
     @ decoded env clock (i + length (split ''\<newline>\<newline>'' chunk)) rs"

definition appended :: "env \<Rightarrow> date \<times> jsval \<Rightarrow> LogEntry list" where
  "appended env x = timeline (dispatch env (fst x) (snd x) (Live initial))"

text \<open>
  The form of every call of \<^verbatim>\<open>handleEvent\<close>, as a function of the state it is called in:
  it throws an exception that does not depend on the state, or it applies an update that
  leaves the timeline alone and then appends at most one entry, which does not depend on
  the state either.
\<close>

definition shaped :: "(world \<Rightarrow> exn + world) \<Rightarrow> bool" where
  "shaped H =
     ((\<exists>e. \<forall>w. H w = Inl e) \<or>
      (\<exists>x g. (\<forall>st. logs (g st) = logs st) \<and>
             (\<forall>w. H w = Inr ((case x of None \<Rightarrow> id | Some entry \<Rightarrow> appendLog entry)
                               (update (\<lambda>st. Inr (g st)) w)))))"

text \<open>A stream of two reads: the chunk of the example, then one more frame.\<close>

definition twoReads :: "read list" where
  \<open>twoReads = [Chunk exampleChunk, Chunk ''data: {"type":"log","content":"c"}\<newline>\<newline>'']\<close>

text \<open>A clock for the examples: piece \<open>i\<close> of a run is handled at time \<open>100 + i\<close>.\<close>

definition tick :: "nat \<Rightarrow> date" where
  "tick i = 100 + i"

section \<open>Basic facts\<close>

lemma Get_field: "truthy v \<Longrightarrow> Get env v k = Inr (field env v k)"
  by (cases v) (simp_all add: field_def)

lemma appendLog_Live: "appendLog (Inr e) (Live st) = Live (st\<lparr>logs := logs st @ [e]\<rparr>)"
  by (simp add: appendLog_def setLogs_def)

lemma appendLog_Crashed: "appendLog x Crashed = Crashed"
  by (simp add: appendLog_def setLogs_def)

section \<open>The batch tracker\<close>

lemma handle_batch_status:
  "isEvent env ''batch_status'' ev \<Longrightarrow>
   handleEvent env now ev w = Inr (setBatchStatus (field env ev ''content'') w)"
  by (simp add: handleEvent_def isEvent_def Get_field)

lemma dispatch_batch_status:
  "isEvent env ''batch_status'' ev \<Longrightarrow>
   dispatch env now ev (Live st) = Live (st\<lparr>batchStatus := field env ev ''content''\<rparr>)"
  by (simp add: dispatch_def handle_batch_status setBatchStatus_def)

text \<open>
  Claim C7. After any non-empty sequence of \<^verbatim>\<open>batch_status\<close> events the tracker holds
  exactly the payload of the last one, whatever it held before and whatever the earlier
  events carried; nothing else of the state changes. For the two snapshots of the
  example the tracker ends with the second snapshot, which has two items.
\<close>

theorem batch_status_replaces:
  assumes "evs \<noteq> []" and "\<forall>x \<in> set evs. isEvent env ''batch_status'' (snd x)"
  shows "dispatchAll env evs (Live st) =
         Live (st\<lparr>batchStatus := field env (snd (last evs)) ''content''\<rparr>)"
  using assms
proof (induction evs arbitrary: st)
  case Nil
  then show ?case by simp
next
  case (Cons x xs)
  show ?case
  proof (cases "xs = []")
    case True
    with Cons.prems show ?thesis by (simp add: dispatch_batch_status)
  next
    case False
    with Cons.prems Cons.IH [of "st\<lparr>batchStatus := field env (snd x) ''content''\<rparr>"]
    show ?thesis by (simp add: dispatch_batch_status)
  qed
qed

theorem batch_status_replaces_witness:
  "dispatchAll js [(0, batch_status snapshot1), (1, batch_status snapshot2)] (Live initial) =
     Live (initial\<lparr>batchStatus := snapshot2\<rparr>)
   \<and> Get js snapshot2 ''length'' = Inr (VNum 2)"
  using batch_status_replaces
    [of "[(0, batch_status snapshot1), (1, batch_status snapshot2)]" js initial]
  by (simp add: isEvent_def batch_status_def field_def snapshot2_def)

section \<open>Submissions\<close>

lemma ebind_Inr_iff: "ebind m f = Inr y \<longleftrightarrow> (\<exists>x. m = Inr x \<and> f x = Inr y)"
  by (cases m) simp_all

lemma setter_Live:
  "setHitlData f (Live st) = Live (st\<lparr>hitlData := f (hitlData st)\<rparr>)"
  "setProductChoices g (Live st) = Live (st\<lparr>productChoices := g (productChoices st)\<rparr>)"
  "setAddressChoices h (Live st) = Live (st\<lparr>addressChoices := h (addressChoices st)\<rparr>)"
  "setPaymentChoices i (Live st) = Live (st\<lparr>paymentChoices := i (paymentChoices st)\<rparr>)"
  "setGeneralOptions j (Live st) = Live (st\<lparr>generalOptions := j (generalOptions st)\<rparr>)"
  "setBatchStatus v (Live st) = Live (st\<lparr>batchStatus := v\<rparr>)"
  "setIsRunning b (Live st) = Live (st\<lparr>isRunning := b\<rparr>)"
  by (simp_all add: setHitlData_def setProductChoices_def setAddressChoices_def
      setPaymentChoices_def setGeneralOptions_def setBatchStatus_def setIsRunning_def)

lemma appendLog_cases:
  "appendLog x (Live st) = Live st' \<Longrightarrow> \<exists>e. x = Inr e \<and> st' = st\<lparr>logs := logs st @ [e]\<rparr>"
  by (cases x) (auto simp add: appendLog_def setLogs_def)

lemma resume_succeeded: "resume env a = Inr u \<longleftrightarrow> succeeded env a"
  by (cases a) (auto simp add: resume_def succeeded_def ebind_Inr_iff split: sum.splits if_splits)

lemma resume_refused: "refused env a \<Longrightarrow> \<exists>e. resume env a = Inl e"
  using resume_succeeded [of env a "()"]
  by (cases "resume env a") (auto simp add: refused_def succeeded_def split: answer.splits sum.splits)

text \<open>
  Claim C3. When the answer to a submission is not ok, or is ok with a body whose status
  is \<^verbatim>\<open>error\<close>, each of the five handlers leaves the whole state as it was, the prompts
  included, and appends exactly one error entry to the timeline.
\<close>
theorem failed_submission_keeps_prompt:
  "(refused env (post \<lparr>session_id = sid, input_data = VStr input\<rparr>) \<longrightarrow>
      handleHitlSubmit env now post sid input (Live st) =
        Live (st\<lparr>logs := logs st @ [errorEntry now (''Failed to submit input: '' @
                 failure env (post \<lparr>session_id = sid, input_data = VStr input\<rparr>))]\<rparr>))
   \<and> (refused env (post (selection env sid i)) \<longrightarrow>
      (\<forall>h \<in> {handleProductSelect, handleAddressSelect, handlePaymentSelect, handleOptionSelect}.
        h env now post sid i chosen (Live st) =
          Live (st\<lparr>logs := logs st @ [errorEntry now (''Failed to submit selection: '' @
                   failure env (post (selection env sid i)))]\<rparr>)))"
proof (intro conjI impI ballI)
  assume "refused env (post \<lparr>session_id = sid, input_data = VStr input\<rparr>)"
  then obtain e where "resume env (post \<lparr>session_id = sid, input_data = VStr input\<rparr>) = Inl e"
    using resume_refused by blast
  then show "handleHitlSubmit env now post sid input (Live st) =
        Live (st\<lparr>logs := logs st @ [errorEntry now (''Failed to submit input: '' @
                 failure env (post \<lparr>session_id = sid, input_data = VStr input\<rparr>))]\<rparr>)"
    by (simp add: handleHitlSubmit_def failure_def textEntry_def appendLog_Live errorEntry_def)
next
  fix h
  assume "refused env (post (selection env sid i))"
  then obtain e where e: "resume env (post (selection env sid i)) = Inl e"
    using resume_refused by blast
  assume "h \<in> {handleProductSelect, handleAddressSelect, handlePaymentSelect, handleOptionSelect}"
  then consider "h = handleProductSelect" | "h = handleAddressSelect"
    | "h = handlePaymentSelect" | "h = handleOptionSelect" by blast
  then show "h env now post sid i chosen (Live st) =
          Live (st\<lparr>logs := logs st @ [errorEntry now (''Failed to submit selection: '' @
                   failure env (post (selection env sid i)))]\<rparr>)"
    using e
    by cases (simp_all add: handleProductSelect_def handleAddressSelect_def handlePaymentSelect_def
        handleOptionSelect_def failure_def textEntry_def appendLog_Live errorEntry_def)
qed


theorem failed_submission_keeps_prompt_witness:
  "handleHitlSubmit js 9 refusing (VStr ''s1'') ''blue'' (Live asking) =
     Live (asking\<lparr>logs := logs asking @
       [errorEntry 9 ''Failed to submit input: No such session'']\<rparr>)
   \<and> handleProductSelect js 9 failing (VStr ''s2'') 0 (VObj [(''product_name'', VStr ''Lamp'')])
       (Live asking) =
     Live (asking\<lparr>logs := logs asking @
       [errorEntry 9 ''Failed to submit selection: Server error: 500'']\<rparr>)"
proof -
  have r1: "refused js (refusing \<lparr>session_id = VStr ''s1'', input_data = VStr ''blue''\<rparr>)"
    by (simp add: refused_def refusing_def ok_def)
  have f1: "failure js (refusing \<lparr>session_id = VStr ''s1'', input_data = VStr ''blue''\<rparr>)
            = ''No such session''"
    by (simp add: failure_def resume_def refusing_def ok_def)
  have r2: "refused js (failing (selection js (VStr ''s2'') 0))"
    by (simp add: refused_def failing_def ok_def)
  have f2: "failure js (failing (selection js (VStr ''s2'') 0)) = ''Server error: 500''"
    by (simp add: failure_def resume_def failing_def ok_def js_def show_number_def)
  from failed_submission_keeps_prompt
    [of js refusing "VStr ''s1''" "''blue''" 9 asking 0]
    failed_submission_keeps_prompt
    [of js failing "VStr ''s2''" "''blue''" 9 asking 0 "VObj [(''product_name'', VStr ''Lamp'')]"]
  show ?thesis
    using r1 f1 r2 f2 by simp
qed


text \<open>
  Claim C2, as stated, fails for the free-text family: after an accepted answer
  \<^verbatim>\<open>handleHitlSubmit\<close> closes the prompt and the timeline is what it was.
\<close>

theorem free_text_success_appends_nothing:
  "succeeded js (accepting \<lparr>session_id = VStr ''s1'', input_data = VStr ''blue''\<rparr>)
   \<and> handleHitlSubmit js 9 accepting (VStr ''s1'') ''blue'' (Live asking) =
       Live (asking\<lparr>hitlData := (hitlData asking)\<lparr>HitlData.isOpen := False\<rparr>\<rparr>)
   \<and> timeline (handleHitlSubmit js 9 accepting (VStr ''s1'') ''blue'' (Live asking)) =
       timeline (Live asking)"
  by (simp add: succeeded_def accepting_def ok_def handleHitlSubmit_def resume_def setter_Live)

text \<open>
  Claim C2, amended. After a success answer every handler closes the prompt of its family
  and changes nothing else of the prompt. The four choice handlers also append one text
  entry that names the selection, provided the name can be rendered as text;
  \<^verbatim>\<open>handleHitlSubmit\<close> appends nothing.
\<close>

theorem successful_submission_closes_prompt:
  "(succeeded env (post \<lparr>session_id = sid, input_data = VStr input\<rparr>) \<longrightarrow>
      handleHitlSubmit env now post sid input (Live st) =
        Live (st\<lparr>hitlData := (hitlData st)\<lparr>HitlData.isOpen := False\<rparr>\<rparr>))
   \<and> (succeeded env (post (selection env sid i)) \<longrightarrow>
       (interp env chosen ''product_name'' = Inr n \<longrightarrow>
          handleProductSelect env now post sid i chosen (Live st) =
            Live (st\<lparr>productChoices := (productChoices st)\<lparr>ProductChoices.isOpen := False\<rparr>,
                     logs := logs st @ [textLog now (''Selected: '' @ n)]\<rparr>))
     \<and> (interp env chosen ''name'' = Inr n \<and> interp env chosen ''address'' = Inr a \<longrightarrow>
          handleAddressSelect env now post sid i chosen (Live st) =
            Live (st\<lparr>addressChoices := (addressChoices st)\<lparr>AddressChoices.isOpen := False\<rparr>,
                     logs := logs st @ [textLog now (''Selected address: '' @ n @ '' - '' @ a)]\<rparr>))
     \<and> (interp env chosen ''method'' = Inr n \<longrightarrow>
          handlePaymentSelect env now post sid i chosen (Live st) =
            Live (st\<lparr>paymentChoices := (paymentChoices st)\<lparr>PaymentChoices.isOpen := False\<rparr>,
                     logs := logs st @ [textLog now (''Selected payment: '' @ n)]\<rparr>))
     \<and> (interp env chosen ''label'' = Inr n \<longrightarrow>
          handleOptionSelect env now post sid i chosen (Live st) =
            Live (st\<lparr>generalOptions := (generalOptions st)\<lparr>GeneralOptions.isOpen := False\<rparr>,
                     logs := logs st @ [textLog now (''Selected: '' @ n)]\<rparr>)))"
proof (intro conjI impI)
  assume "succeeded env (post \<lparr>session_id = sid, input_data = VStr input\<rparr>)"
  then have "resume env (post \<lparr>session_id = sid, input_data = VStr input\<rparr>) = Inr ()"
    by (simp add: resume_succeeded)
  then show "handleHitlSubmit env now post sid input (Live st) =
        Live (st\<lparr>hitlData := (hitlData st)\<lparr>HitlData.isOpen := False\<rparr>\<rparr>)"
    by (simp add: handleHitlSubmit_def setter_Live)
next
  assume "succeeded env (post (selection env sid i))"
  then have r: "resume env (post (selection env sid i)) = Inr ()"
    by (simp add: resume_succeeded)
  {
    assume "interp env chosen ''product_name'' = Inr n"
    with r show "handleProductSelect env now post sid i chosen (Live st) =
            Live (st\<lparr>productChoices := (productChoices st)\<lparr>ProductChoices.isOpen := False\<rparr>,
                     logs := logs st @ [textLog now (''Selected: '' @ n)]\<rparr>)"
      by (simp add: handleProductSelect_def setter_Live textEntry_def appendLog_Live textLog_def)
  next
    assume "interp env chosen ''name'' = Inr n \<and> interp env chosen ''address'' = Inr a"
    with r show "handleAddressSelect env now post sid i chosen (Live st) =
            Live (st\<lparr>addressChoices := (addressChoices st)\<lparr>AddressChoices.isOpen := False\<rparr>,
                     logs := logs st @ [textLog now (''Selected address: '' @ n @ '' - '' @ a)]\<rparr>)"
      by (simp add: handleAddressSelect_def setter_Live textEntry_def appendLog_Live textLog_def)
  next
    assume "interp env chosen ''method'' = Inr n"
    with r show "handlePaymentSelect env now post sid i chosen (Live st) =
            Live (st\<lparr>paymentChoices := (paymentChoices st)\<lparr>PaymentChoices.isOpen := False\<rparr>,
                     logs := logs st @ [textLog now (''Selected payment: '' @ n)]\<rparr>)"
      by (simp add: handlePaymentSelect_def setter_Live textEntry_def appendLog_Live textLog_def)
  next
    assume "interp env chosen ''label'' = Inr n"
    with r show "handleOptionSelect env now post sid i chosen (Live st) =
            Live (st\<lparr>generalOptions := (generalOptions st)\<lparr>GeneralOptions.isOpen := False\<rparr>,
                     logs := logs st @ [textLog now (''Selected: '' @ n)]\<rparr>)"
      by (simp add: handleOptionSelect_def setter_Live textEntry_def appendLog_Live textLog_def)
  }
qed

theorem successful_submission_closes_prompt_witness:
  "handleHitlSubmit js 9 accepting (VStr ''s1'') ''blue'' (Live asking) =
     Live (asking\<lparr>hitlData := (hitlData asking)\<lparr>HitlData.isOpen := False\<rparr>\<rparr>)
   \<and> handleProductSelect js 9 accepting (VStr ''s2'') 0 (VObj [(''product_name'', VStr ''Lamp'')])
       (Live asking) =
     Live (asking\<lparr>productChoices := (productChoices asking)\<lparr>ProductChoices.isOpen := False\<rparr>,
                  logs := logs asking @ [textLog 9 ''Selected: Lamp'']\<rparr>)
   \<and> handleOptionSelect js 9 accepting (VStr ''s5'') 0 (VObj [(''label'', VStr ''Large'')])
       (Live asking) =
     Live (asking\<lparr>generalOptions := (generalOptions asking)\<lparr>GeneralOptions.isOpen := False\<rparr>,
                  logs := logs asking @ [textLog 9 ''Selected: Large'']\<rparr>)"
proof -
  have s: "succeeded js (accepting r)" for r
    by (simp add: succeeded_def accepting_def ok_def)
  have p: "interp js (VObj [(''product_name'', VStr ''Lamp'')]) ''product_name'' = Inr ''Lamp''"
    by (simp add: interp_def)
  have l: "interp js (VObj [(''label'', VStr ''Large'')]) ''label'' = Inr ''Large''"
    by (simp add: interp_def)
  from successful_submission_closes_prompt
    [of js accepting "VStr ''s1''" "''blue''" 9 asking 0 "VObj [(''product_name'', VStr ''Lamp'')]" "''Lamp''"]
    successful_submission_closes_prompt
    [of js accepting "VStr ''s5''" "''blue''" 9 asking 0 "VObj [(''label'', VStr ''Large'')]" "''Large''"]
    successful_submission_closes_prompt
    [of js accepting "VStr ''s2''" "''blue''" 9 asking 0 "VObj [(''product_name'', VStr ''Lamp'')]" "''Lamp''"]
  show ?thesis
    using s p l by simp
qed


section \<open>Prompts\<close>

lemma Get_defined: "v \<noteq> VUndefined \<Longrightarrow> v \<noteq> VNull \<Longrightarrow> Get env v k = Inr (field env v k)"
  by (cases v) (simp_all add: field_def)

lemma handle_request_input:
  assumes "isEvent env ''request_input'' ev"
  shows "handleEvent env now ev (Live st) =
    Inr (Live (st\<lparr>hitlData := \<lparr>HitlData.isOpen = True, question = field env ev ''content'',
                HitlData.sessionId = field env ev ''session_id''\<rparr>\<rparr>))"
  using assms by (simp add: handleEvent_def isEvent_def Get_field setter_Live)

lemma handle_product_choices:
  assumes "isEvent env ''product_choices'' ev"
  shows "handleEvent env now ev (Live st) =
    (if field env ev ''content'' = VUndefined \<or> field env ev ''content'' = VNull
     then Inl (TypeError (TypeError_message env ''message''))
     else Inr (appendLog
            (ebind (interp env (field env (field env ev ''content'') ''products'') ''length'') (\<lambda>n.
               textEntry ''text'' now (''Found '' @ n @ '' products. Please select one...'')))
            (Live (st\<lparr>productChoices := \<lparr>ProductChoices.isOpen = True,
              ProductChoices.message = field env (field env ev ''content'') ''message'',
              products = field env (field env ev ''content'') ''products'',
              ProductChoices.sessionId = field env ev ''session_id''\<rparr>\<rparr>))))"
  using assms by (simp add: handleEvent_def isEvent_def Get_field setter_Live Get_defined)


lemma handle_address_choices:
  assumes "isEvent env ''address_choices'' ev"
  shows "handleEvent env now ev (Live st) =
    (if field env ev ''content'' = VUndefined \<or> field env ev ''content'' = VNull
     then Inl (TypeError (TypeError_message env ''message''))
     else Inr (appendLog
            (ebind (interp env (field env (field env ev ''content'') ''addresses'') ''length'') (\<lambda>n.
               textEntry ''text'' now
                 (''Found '' @ n @ '' delivery addresses. Please select one...'')))
            (Live (st\<lparr>addressChoices := \<lparr>AddressChoices.isOpen = True,
              AddressChoices.message = field env (field env ev ''content'') ''message'',
              addresses = field env (field env ev ''content'') ''addresses'',
              AddressChoices.sessionId = field env ev ''session_id''\<rparr>\<rparr>))))"
  using assms by (simp add: handleEvent_def isEvent_def Get_field setter_Live Get_defined)

lemma handle_payment_choices:
  assumes "isEvent env ''payment_choices'' ev"
  shows "handleEvent env now ev (Live st) =
    (if field env ev ''content'' = VUndefined \<or> field env ev ''content'' = VNull
     then Inl (TypeError (TypeError_message env ''message''))
     else Inr (Live (st\<lparr>paymentChoices := \<lparr>PaymentChoices.isOpen = True,
              PaymentChoices.message = field env (field env ev ''content'') ''message'',
              payments = field env (field env ev ''content'') ''payments'',
              PaymentChoices.sessionId = field env ev ''session_id''\<rparr>,
            logs := logs st @
              [textLog now ''Available payment methods. Please select one...'']\<rparr>)))"
  using assms
  by (simp add: handleEvent_def isEvent_def Get_field setter_Live Get_defined textEntry_def
      appendLog_Live textLog_def)

lemma handle_options:
  assumes "isEvent env ''options'' ev"
  shows "handleEvent env now ev (Live st) =
    (if field env ev ''content'' = VUndefined \<or> field env ev ''content'' = VNull
     then Inl (TypeError (TypeError_message env ''message''))
     else Inr (appendLog
            (ebind (interp env (field env ev ''content'') ''message'') (\<lambda>s.
               textEntry ''text'' now s))
            (Live (st\<lparr>generalOptions := \<lparr>GeneralOptions.isOpen = True,
              GeneralOptions.message = field env (field env ev ''content'') ''message'',
              options = field env (field env ev ''content'') ''options'',
              optionType = (if truthy (field env (field env ev ''content'') ''option_type'')
                            then field env (field env ev ''content'') ''option_type''
                            else VStr ''general''),
              GeneralOptions.sessionId = field env ev ''session_id''\<rparr>\<rparr>))))"
  using assms by (simp add: handleEvent_def isEvent_def Get_field setter_Live Get_defined)

lemma isObj_defined: "isObj c \<Longrightarrow> c \<noteq> VUndefined \<and> c \<noteq> VNull"
  by (cases c) simp_all

lemma interp_length_array: "isArr v \<Longrightarrow> \<exists>s. interp env v ''length'' = Inr s"
  by (cases v) (simp_all add: interp_def)

lemma interp_string: "isObj c \<Longrightarrow> isStr (field env c k) \<Longrightarrow> \<exists>s. interp env c k = Inr s"
  by (cases c; cases "field env c k") (simp_all add: interp_def field_def)

text \<open>
  Claim C1. The state holds one prompt per family. When the dispatcher handles an event
  that opens family \<open>f\<close>, the prompt of \<open>f\<close> afterwards is exactly the one the event
  describes (open, with the event's message, choices and session), whatever prompt of
  \<open>f\<close> was there before, open or not, and the prompts of the other families are what
  they were. For an event whose payload has the shape of the data model the dispatcher
  does handle it. (An opening event of a choice family without a payload throws while the
  arguments of the setter are read, and is dropped by the decoder as a whole.)
\<close>

theorem opening_event_replaces_prompt:
  assumes "isEvent env (openedBy f) ev"
  shows "(\<forall>st'. handleEvent env now ev (Live st) = Inr (Live st') \<longrightarrow>
            prompt f st' = offered env f ev \<and> (\<forall>g. g \<noteq> f \<longrightarrow> prompt g st' = prompt g st))
         \<and> (wellFormed env f ev \<longrightarrow> (\<exists>st'. handleEvent env now ev (Live st) = Inr (Live st')))"
proof (cases f)
  case FreeText
  with assms have "isEvent env ''request_input'' ev" by simp
  note h = handle_request_input [OF this, of now st]
  have "prompt g st' = prompt g st"
    if "g \<noteq> f" and "handleEvent env now ev (Live st) = Inr (Live st')" for g st'
    using that h FreeText by (cases g) auto
  moreover have "prompt f st' = offered env f ev"
    if "handleEvent env now ev (Live st) = Inr (Live st')" for st'
    using that h FreeText by (auto simp add: offered_def Let_def)
  ultimately show ?thesis using h by blast
next
  case Product
  with assms have ev: "isEvent env ''product_choices'' ev" by simp
  note h = handle_product_choices [OF ev, of now st]
  have A: "prompt f st' = offered env f ev \<and> (\<forall>g. g \<noteq> f \<longrightarrow> prompt g st' = prompt g st)"
    if "handleEvent env now ev (Live st) = Inr (Live st')" for st'
  proof -
    from that h obtain e where "st' = (st\<lparr>productChoices := \<lparr>ProductChoices.isOpen = True,
              ProductChoices.message = field env (field env ev ''content'') ''message'',
              products = field env (field env ev ''content'') ''products'',
              ProductChoices.sessionId = field env ev ''session_id''\<rparr>\<rparr>)\<lparr>logs := logs st @ [e]\<rparr>"
      (is "st' = ?s")
      by (auto split: if_splits dest!: appendLog_cases)
    then have st': "st' = ?s" .
    have "prompt g st' = prompt g st" if "g \<noteq> f" for g
      using that Product by (cases g) (simp_all add: st')
    moreover have "prompt f st' = offered env f ev"
      using Product by (simp add: st' offered_def Let_def)
    ultimately show ?thesis by blast
  qed
  have B: "\<exists>st'. handleEvent env now ev (Live st) = Inr (Live st')" if "wellFormed env f ev"
  proof -
    from that Product have o: "isObj (field env ev ''content'')"
      and a: "isArr (field env (field env ev ''content'') ''products'')"
      by (simp_all add: wellFormed_def Let_def)
    from interp_length_array [OF a, of env] obtain s
      where "interp env (field env (field env ev ''content'') ''products'') ''length'' = Inr s" ..
    with h isObj_defined [OF o] show ?thesis
      by (simp add: textEntry_def appendLog_Live)
  qed
  from A B show ?thesis by blast
next
  case Address
  with assms have ev: "isEvent env ''address_choices'' ev" by simp
  note h = handle_address_choices [OF ev, of now st]
  have A: "prompt f st' = offered env f ev \<and> (\<forall>g. g \<noteq> f \<longrightarrow> prompt g st' = prompt g st)"
    if "handleEvent env now ev (Live st) = Inr (Live st')" for st'
  proof -
    from that h obtain e where "st' = (st\<lparr>addressChoices := \<lparr>AddressChoices.isOpen = True,
              AddressChoices.message = field env (field env ev ''content'') ''message'',
              addresses = field env (field env ev ''content'') ''addresses'',
              AddressChoices.sessionId = field env ev ''session_id''\<rparr>\<rparr>)\<lparr>logs := logs st @ [e]\<rparr>"
      (is "st' = ?s")
      by (auto split: if_splits dest!: appendLog_cases)
    then have st': "st' = ?s" .
    have "prompt g st' = prompt g st" if "g \<noteq> f" for g
      using that Address by (cases g) (simp_all add: st')
    moreover have "prompt f st' = offered env f ev"
      using Address by (simp add: st' offered_def Let_def)
    ultimately show ?thesis by blast
  qed
  have B: "\<exists>st'. handleEvent env now ev (Live st) = Inr (Live st')" if "wellFormed env f ev"
  proof -
    from that Address have o: "isObj (field env ev ''content'')"
      and a: "isArr (field env (field env ev ''content'') ''addresses'')"
      by (simp_all add: wellFormed_def Let_def)
    from interp_length_array [OF a, of env] obtain s
      where "interp env (field env (field env ev ''content'') ''addresses'') ''length'' = Inr s" ..
    with h isObj_defined [OF o] show ?thesis
      by (simp add: textEntry_def appendLog_Live)
  qed
  from A B show ?thesis by blast
next
  case Payment
  with assms have ev: "isEvent env ''payment_choices'' ev" by simp
  note h = handle_payment_choices [OF ev, of now st]
  have A: "prompt f st' = offered env f ev \<and> (\<forall>g. g \<noteq> f \<longrightarrow> prompt g st' = prompt g st)"
    if "handleEvent env now ev (Live st) = Inr (Live st')" for st'
  proof -
    from that h have "st' = st\<lparr>paymentChoices := \<lparr>PaymentChoices.isOpen = True,
              PaymentChoices.message = field env (field env ev ''content'') ''message'',
              payments = field env (field env ev ''content'') ''payments'',
              PaymentChoices.sessionId = field env ev ''session_id''\<rparr>,
            logs := logs st @
              [textLog now ''Available payment methods. Please select one...'']\<rparr>"
      (is "st' = ?s")
      by (auto split: if_splits)
    then have st': "st' = ?s" .
    have "prompt g st' = prompt g st" if "g \<noteq> f" for g
      using that Payment by (cases g) (simp_all add: st')
    moreover have "prompt f st' = offered env f ev"
      using Payment by (simp add: st' offered_def Let_def)
    ultimately show ?thesis by blast
  qed
  have B: "\<exists>st'. handleEvent env now ev (Live st) = Inr (Live st')" if "wellFormed env f ev"
  proof -
    from that Payment have o: "isObj (field env ev ''content'')"
      by (simp_all add: wellFormed_def Let_def)
    with h isObj_defined [OF o] show ?thesis by simp
  qed
  from A B show ?thesis by blast
next
  case Options
  with assms have ev: "isEvent env ''options'' ev" by simp
  note h = handle_options [OF ev, of now st]
  have A: "prompt f st' = offered env f ev \<and> (\<forall>g. g \<noteq> f \<longrightarrow> prompt g st' = prompt g st)"
    if "handleEvent env now ev (Live st) = Inr (Live st')" for st'
  proof -
    from that h obtain e where "st' = (st\<lparr>generalOptions := \<lparr>GeneralOptions.isOpen = True,
              GeneralOptions.message = field env (field env ev ''content'') ''message'',
              options = field env (field env ev ''content'') ''options'',
              optionType = (if truthy (field env (field env ev ''content'') ''option_type'')
                            then field env (field env ev ''content'') ''option_type''
                            else VStr ''general''),
              GeneralOptions.sessionId = field env ev ''session_id''\<rparr>\<rparr>)\<lparr>logs := logs st @ [e]\<rparr>"
      (is "st' = ?s")
      by (auto split: if_splits dest!: appendLog_cases)
    then have st': "st' = ?s" .
    have "prompt g st' = prompt g st" if "g \<noteq> f" for g
      using that Options by (cases g) (simp_all add: st')
    moreover have "prompt f st' = offered env f ev"
      using Options by (simp add: st' offered_def Let_def)
    ultimately show ?thesis by blast
  qed
  have B: "\<exists>st'. handleEvent env now ev (Live st) = Inr (Live st')" if "wellFormed env f ev"
  proof -
    from that Options have o: "isObj (field env ev ''content'')"
      and a: "isStr (field env (field env ev ''content'') ''message'')"
      by (simp_all add: wellFormed_def Let_def)
    from interp_string [OF o a] obtain s
      where "interp env (field env ev ''content'') ''message'' = Inr s" ..
    with h isObj_defined [OF o] show ?thesis
      by (simp add: textEntry_def appendLog_Live)
  qed
  from A B show ?thesis by blast
qed


theorem opening_event_replaces_prompt_witness:
  "isEvent js (openedBy Product) secondProducts
   \<and> wellFormed js Product secondProducts
   \<and> PendingPrompt.isOpen (prompt Product asking)
   \<and> (\<exists>st'. handleEvent js 5 secondProducts (Live asking) = Inr (Live st')
          \<and> prompt Product st' =
              \<lparr>isOpen = True, sessionId = VStr ''s9'', message = VStr ''Pick again'',
               choices = Some (VArr [VObj [(''product_name'', VStr ''Desk'')],
                                     VObj [(''product_name'', VStr ''Chair'')]]),
               kind = None\<rparr>
          \<and> prompt FreeText st' = prompt FreeText asking)"
proof -
  have e: "isEvent js (openedBy Product) secondProducts"
    by (simp add: isEvent_def secondProducts_def)
  have w: "wellFormed js Product secondProducts"
    by (simp add: wellFormed_def secondProducts_def field_def)
  have o: "offered js Product secondProducts =
      \<lparr>isOpen = True, sessionId = VStr ''s9'', message = VStr ''Pick again'',
       choices = Some (VArr [VObj [(''product_name'', VStr ''Desk'')],
                             VObj [(''product_name'', VStr ''Chair'')]]),
       kind = None\<rparr>"
    by (simp add: offered_def secondProducts_def field_def)
  have a: "PendingPrompt.isOpen (prompt Product asking)"
    by (simp add: asking_def)
  note t = opening_event_replaces_prompt [OF e, of 5 asking]
  from t w obtain st' where h: "handleEvent js 5 secondProducts (Live asking) = Inr (Live st')"
    by blast
  with t have p: "prompt Product st' = offered js Product secondProducts"
    and q: "prompt FreeText st' = prompt FreeText asking"
    by blast+
  from p o have "prompt Product st' =
      \<lparr>isOpen = True, sessionId = VStr ''s9'', message = VStr ''Pick again'',
       choices = Some (VArr [VObj [(''product_name'', VStr ''Desk'')],
                             VObj [(''product_name'', VStr ''Chair'')]]),
       kind = None\<rparr>"
    by (rule trans)
  with h q have "\<exists>st'. handleEvent js 5 secondProducts (Live asking) = Inr (Live st')
          \<and> prompt Product st' =
              \<lparr>isOpen = True, sessionId = VStr ''s9'', message = VStr ''Pick again'',
               choices = Some (VArr [VObj [(''product_name'', VStr ''Desk'')],
                                     VObj [(''product_name'', VStr ''Chair'')]]),
               kind = None\<rparr>
          \<and> prompt FreeText st' = prompt FreeText asking"
    by blast
  with e w a show ?thesis by blast
qed


section \<open>Results\<close>

text \<open>
  Claim C8. For a \<^verbatim>\<open>result\<close> event whose content is the string \<open>s\<close>, the dispatcher
  appends one entry: a structured-result entry (\<^verbatim>\<open>result-json\<close>) carrying the parsed value
  if \<open>s\<close> parses as JSON, and otherwise a success entry whose text is \<open>s\<close> after the
  label \<^verbatim>\<open>**Result:**\<close>. The two contents of the example give the two kinds of entry.
\<close>

theorem result_event_entry:
  assumes "isEvent env ''result'' ev" and "field env ev ''content'' = VStr s"
  shows "handleEvent env now ev (Live st) =
     Inr (Live (st\<lparr>logs := logs st @
       [case JSON_parse env s of
          Some v \<Rightarrow> \<lparr>type = ''result-json'', content = v, results = None, timestamp = Some now\<rparr>
        | None \<Rightarrow> \<lparr>type = ''success'', content = VStr (''**Result:** '' @ s),
                    results = None, timestamp = Some now\<rparr>]\<rparr>))"
proof -
  from assms have t: "truthy ev" and ty: "Get env ev ''type'' = Inr (VStr ''result'')"
    and c: "Get env ev ''content'' = Inr (VStr s)"
    by (simp_all add: isEvent_def Get_field)
  show ?thesis
  proof (cases "JSON_parse env s")
    case None
    then have "JSON_parse_value env (VStr s) = Inl (SyntaxError (SyntaxError_message env s))"
      by (simp add: JSON_parse_value_def)
    with t ty c None show ?thesis
      by (simp add: handleEvent_def textEntry_def appendLog_Live)
  next
    case (Some v)
    then have "JSON_parse_value env (VStr s) = Inr v"
      by (simp add: JSON_parse_value_def)
    with t ty c Some show ?thesis
      by (simp add: handleEvent_def appendLog_Live)
  qed
qed

theorem result_event_entry_witness:
  "handleEvent js 3 (resultEvent structured) (Live initial) =
     Inr (Live (initial\<lparr>logs := [\<lparr>type = ''result-json'',
        content = VObj [(''product_name'', VStr ''X''), (''price'', VStr ''$9'')],
        results = None, timestamp = Some 3\<rparr>]\<rparr>))
   \<and> handleEvent js 4 (resultEvent ''not json'') (Live initial) =
     Inr (Live (initial\<lparr>logs := [\<lparr>type = ''success'',
        content = VStr ''**Result:** not json'', results = None, timestamp = Some 4\<rparr>]\<rparr>))"
proof -
  have e: "isEvent js ''result'' (resultEvent s)" for s
    by (simp add: isEvent_def resultEvent_def)
  have c: "field js (resultEvent s) ''content'' = VStr s" for s
    by (simp add: field_def resultEvent_def)
  have p1: "JSON_parse js structured =
      Some (VObj [(''product_name'', VStr ''X''), (''price'', VStr ''$9'')])"
    by (simp add: js_def structured_def parse_json_def skip_ws_def is_ws_def)
  have p2: "JSON_parse js ''not json'' = None"
    by (simp add: js_def parse_json_def skip_ws_def is_ws_def parse_number_def is_digit_def)
  have l: "logs initial = []"
    by (simp add: initial_def)
  from result_event_entry [OF e [of structured] c [of structured], where now = 3 and st = initial]
    result_event_entry [OF e [of "''not json''"] c [of "''not json''"],
      where now = 4 and st = initial]
  show ?thesis
    by (simp add: p1 p2 l)
qed

section \<open>Starting a run\<close>

text \<open>
  Claim C6, as stated, fails: starting a run, single or batch, leaves every open prompt
  open (and the single run leaves the tracker as it was).
\<close>

theorem run_start_keeps_prompts:
  "runAgent_start (Live asking) = Live (asking\<lparr>isRunning := True, logs := []\<rparr>)
   \<and> PendingPrompt.isOpen (prompt FreeText (asking\<lparr>isRunning := True, logs := []\<rparr>))
   \<and> runBatchAgent_start (Live asking) =
       Live (asking\<lparr>isRunning := True, logs := [], batchStatus := VArr []\<rparr>)
   \<and> PendingPrompt.isOpen
       (prompt Product (asking\<lparr>isRunning := True, logs := [], batchStatus := VArr []\<rparr>))"
  by (simp add: runAgent_start_def runBatchAgent_start_def setter_Live setLogs_def asking_def)

text \<open>
  Claim C6, amended. The first statements of either run set \<^verbatim>\<open>isRunning\<close> and empty
  the timeline, a batch run also empties the tracker, and no prompt of any family is
  changed; the stream of the run is read from that state.
\<close>

theorem run_start_clears_timeline:
  "(\<exists>st'. runAgent_start (Live st) = Live st' \<and> isRunning st' \<and> logs st' = []
          \<and> (\<forall>f. prompt f st' = prompt f st))
   \<and> (\<exists>st'. runBatchAgent_start (Live st) = Live st' \<and> isRunning st' \<and> logs st' = []
          \<and> batchStatus st' = VArr [] \<and> (\<forall>f. prompt f st' = prompt f st))
   \<and> runAgent env clock resp w = stream env clock resp (runAgent_start w)
   \<and> runBatchAgent env clock resp w = stream env clock resp (runBatchAgent_start w)"
proof -
  have a: "runAgent_start (Live st) = Live (st\<lparr>isRunning := True, logs := []\<rparr>)"
    by (simp add: runAgent_start_def setter_Live setLogs_def)
  have b: "runBatchAgent_start (Live st) =
      Live (st\<lparr>isRunning := True, logs := [], batchStatus := VArr []\<rparr>)"
    by (simp add: runBatchAgent_start_def setter_Live setLogs_def)
  have c: "prompt f (st\<lparr>isRunning := True, logs := []\<rparr>) = prompt f st" for f
    by (cases f) simp_all
  have d: "prompt f (st\<lparr>isRunning := True, logs := [], batchStatus := VArr []\<rparr>) = prompt f st"
    for f
    by (cases f) simp_all
  show ?thesis
    by (simp add: a b c d runAgent_def runBatchAgent_def)
qed


section \<open>The decoder\<close>

lemma split_no_LF: "LF \<notin> set a \<Longrightarrow> split [LF, LF] a = [a]"
  by (induction a) auto

lemma split_frame: "LF \<notin> set a \<Longrightarrow> split [LF, LF] (a @ LF # LF # rest) = a # split [LF, LF] rest"
  by (induction a) auto

lemma split_trailing_LF: "LF \<notin> set a \<Longrightarrow> split [LF, LF] (a @ [LF]) = [a @ [LF]]"
  by (induction a) auto

lemma nn_LF: "''\<newline>\<newline>'' = [LF, LF]"
  by (simp add: LF_def)

lemma marker_no_LF: "LF \<notin> set ''data: ''"
  by (simp add: LF_def)

lemma processLine_marker:
  "processLine env now (''data: '' @ p) w =
     (if p = [] then w
      else case JSON_parse env p of None \<Rightarrow> w | Some ev \<Rightarrow> dispatch env now ev w)"
  by (simp add: processLine_def startsWith_def slice_def)

lemma processLine_dropped: "dropped env line \<Longrightarrow> processLine env now line w = w"
  by (auto simp add: processLine_def dropped_def Let_def)

lemma processLine_empty: "processLine env now [] w = w"
  by (simp add: processLine_def startsWith_def)

lemma processChunk_frame:
  "LF \<notin> set p \<Longrightarrow>
   processChunk env clock i (p @ LF # LF # rest) w =
     processChunk env clock (Suc i) rest (processLine env (clock i) p w)"
  by (simp add: processChunk_def nn_LF split_frame)

lemma processChunk_empty: "processChunk env clock i [] w = w"
  by (simp add: processChunk_def processLine_empty)

lemma dispatch_log:
  "isEvent env ''log'' ev \<Longrightarrow>
   dispatch env now ev (Live st) =
     Live (st\<lparr>logs := logs st @ [\<lparr>type = ''text'', content = field env ev ''content'',
                                   results = None, timestamp = Some now\<rparr>]\<rparr>)"
  by (simp add: dispatch_def handleEvent_def isEvent_def Get_field appendLog_Live)

text \<open>
  Claim C4. A chunk of three frames of which the second one does not parse: the first and
  the third event are dispatched, in that order, and nothing else happens. When the two
  events are \<^verbatim>\<open>log\<close> events the state afterwards is the old state with exactly two text
  entries appended, the contents of the first and of the third frame. The chunk of the
  example gives the entries \<^verbatim>\<open>a\<close> and \<^verbatim>\<open>b\<close> and leaves the rest of the state alone.
\<close>
theorem malformed_frame_is_skipped:
  assumes "LF \<notin> set a" and "LF \<notin> set bad" and "LF \<notin> set b"
    and "a \<noteq> []" and "b \<noteq> []"
    and "JSON_parse env a = Some ea" and "JSON_parse env bad = None"
    and "JSON_parse env b = Some eb"
  shows "processChunk env clock i
           (''data: '' @ a @ [LF, LF] @ ''data: '' @ bad @ [LF, LF] @ ''data: '' @ b @ [LF, LF]) w =
         dispatch env (clock (i + 2)) eb (dispatch env (clock i) ea w)
       \<and> (isEvent env ''log'' ea \<and> isEvent env ''log'' eb \<longrightarrow>
         processChunk env clock i
           (''data: '' @ a @ [LF, LF] @ ''data: '' @ bad @ [LF, LF] @ ''data: '' @ b @ [LF, LF])
           (Live st) =
         Live (st\<lparr>logs := logs st @
           [\<lparr>type = ''text'', content = field env ea ''content'', results = None,
             timestamp = Some (clock i)\<rparr>,
            \<lparr>type = ''text'', content = field env eb ''content'', results = None,
             timestamp = Some (clock (i + 2))\<rparr>]\<rparr>))"
proof -
  have 1: "LF \<notin> set (''data: '' @ a)" "LF \<notin> set (''data: '' @ bad)" "LF \<notin> set (''data: '' @ b)"
    using assms(1-3) marker_no_LF by simp_all
  have g: "processChunk env clock i
           (''data: '' @ a @ [LF, LF] @ ''data: '' @ bad @ [LF, LF] @ ''data: '' @ b @ [LF, LF]) v =
         dispatch env (clock (i + 2)) eb (dispatch env (clock i) ea v)" for v
  proof -
    have "processChunk env clock i
           (''data: '' @ a @ [LF, LF] @ ''data: '' @ bad @ [LF, LF] @ ''data: '' @ b @ [LF, LF]) v =
        processChunk env clock i
           ((''data: '' @ a) @ LF # LF # (''data: '' @ bad) @ LF # LF # (''data: '' @ b) @ LF # LF # []) v"
      by simp
    also have "\<dots> = dispatch env (clock (i + 2)) eb (dispatch env (clock i) ea v)"
      unfolding processChunk_frame [OF 1(1)] processChunk_frame [OF 1(2)]
        processChunk_frame [OF 1(3)] processChunk_empty processLine_marker
      using assms(4-8) by simp
    finally show ?thesis .
  qed
  show ?thesis
    unfolding g by (simp add: dispatch_log)
qed

theorem malformed_frame_is_skipped_witness:
  "processChunk js tick 0 exampleChunk (Live initial) =
   Live (initial\<lparr>logs :=
     [\<lparr>type = ''text'', content = VStr ''a'', results = None, timestamp = Some 100\<rparr>,
      \<lparr>type = ''text'', content = VStr ''b'', results = None, timestamp = Some 102\<rparr>]\<rparr>)"
proof -
  have pa: "JSON_parse js (logText ''a'') = Some (logEvent ''a'')"
    by (simp add: js_def logText_def logEvent_def parse_json_def skip_ws_def is_ws_def)
  have pb: "JSON_parse js (logText ''b'') = Some (logEvent ''b'')"
    by (simp add: js_def logText_def logEvent_def parse_json_def skip_ws_def is_ws_def)
  have q: "JSON_parse js ''not-json'' = None"
    by (simp add: js_def parse_json_def skip_ws_def is_ws_def parse_number_def is_digit_def)
  have n: "LF \<notin> set (logText ''a'')" "LF \<notin> set ''not-json''" "LF \<notin> set (logText ''b'')"
    by (simp_all add: LF_def logText_def)
  have e: "logText ''a'' \<noteq> []" "logText ''b'' \<noteq> []"
    by (simp_all add: logText_def)
  have l: "isEvent js ''log'' (logEvent s)" "field js (logEvent s) ''content'' = VStr s" for s
    by (simp_all add: isEvent_def logEvent_def field_def)
  note t = malformed_frame_is_skipped [OF n e pa q pb,
      where clock = tick and i = 0 and w = "Live initial" and st = initial]
  have c: "exampleChunk =
      ''data: '' @ logText ''a'' @ [LF, LF] @ ''data: '' @ ''not-json'' @ [LF, LF] @
      ''data: '' @ logText ''b'' @ [LF, LF]"
    by (simp add: exampleChunk_def logText_def LF_def)
  from t [THEN conjunct2, THEN mp, OF conjI [OF l(1) l(1)]]
  show ?thesis
    unfolding c by (simp only: l(2)) (simp add: initial_def tick_def)
qed


lemma parse_log_a: "JSON_parse js (logText ''a'') = Some (logEvent ''a'')"
  by (simp add: js_def logText_def logEvent_def parse_json_def skip_ws_def is_ws_def)

lemma isEvent_logEvent: "isEvent env ''log'' (logEvent s)"
  by (simp add: isEvent_def logEvent_def)

lemma field_logEvent: "field env (logEvent s) ''content'' = VStr s"
  by (simp add: field_def logEvent_def)

text \<open>
  Claim C5, as stated, fails: the marker is not optional. A chunk that holds one
  well-formed frame without the marker changes nothing.
\<close>
theorem unmarked_frame_is_ignored:
  "JSON_parse js (take 28 unmarkedChunk) = Some (logEvent ''a'')
   \<and> unmarkedChunk = take 28 unmarkedChunk @ ''\<newline>\<newline>''
   \<and> processChunk js tick 0 unmarkedChunk (Live initial) = Live initial"
  by (simp add: unmarkedChunk_def js_def logEvent_def parse_json_def skip_ws_def is_ws_def
      processChunk_def processLine_def startsWith_def)

text \<open>
  Claim C5, amended. For the first complete frame of a chunk, and so for each one in
  turn: a frame that does not start with the marker is skipped; a frame that starts with
  it is stripped of it, skipped if nothing remains or if the rest does not parse, and
  otherwise its event is dispatched; the decoder then goes on with the rest of the chunk.
\<close>

theorem frame_needs_marker:
  assumes "LF \<notin> set p"
  shows "(\<not> startsWith p ''data: '' \<longrightarrow>
            processChunk env clock i (p @ [LF, LF] @ rest) w = processChunk env clock (Suc i) rest w)
       \<and> (\<forall>q. p = ''data: '' @ q \<longrightarrow>
            processChunk env clock i (p @ [LF, LF] @ rest) w =
            processChunk env clock (Suc i) rest
              (if q = [] then w
               else case JSON_parse env q of
                      None \<Rightarrow> w
                    | Some ev \<Rightarrow> dispatch env (clock i) ev w))"
proof -
  have A: "processChunk env clock i (p @ [LF, LF] @ rest) w =
        processChunk env clock (Suc i) rest (processLine env (clock i) p w)"
    using processChunk_frame [OF assms] by simp
  have B: "processLine env (clock i) p w = w" if "\<not> startsWith p ''data: ''"
    using that by (simp add: processLine_dropped dropped_def)
  have C: "processLine env (clock i) p w =
      (if q = [] then w
       else case JSON_parse env q of
              None \<Rightarrow> w
            | Some ev \<Rightarrow> dispatch env (clock i) ev w)" if "p = ''data: '' @ q" for q
    unfolding that by (rule processLine_marker)
  show ?thesis
  proof (intro conjI impI allI)
    assume "\<not> startsWith p ''data: ''"
    then have "processLine env (clock i) p w = w"
      by (rule B)
    then show "processChunk env clock i (p @ [LF, LF] @ rest) w =
        processChunk env clock (Suc i) rest w"
      by (simp only: A)
  next
    fix q
    assume "p = ''data: '' @ q"
    then have "processLine env (clock i) p w =
        (if q = [] then w
         else case JSON_parse env q of
                None \<Rightarrow> w
              | Some ev \<Rightarrow> dispatch env (clock i) ev w)"
      by (rule C)
    then show "processChunk env clock i (p @ [LF, LF] @ rest) w =
        processChunk env clock (Suc i) rest
          (if q = [] then w
           else case JSON_parse env q of
                  None \<Rightarrow> w
                | Some ev \<Rightarrow> dispatch env (clock i) ev w)"
      by (simp only: A)
  qed
qed

theorem frame_needs_marker_witness:
  "processChunk js tick 0 (''data: '' @ logText ''a'' @ [LF, LF]) (Live initial) =
     Live (initial\<lparr>logs :=
       [\<lparr>type = ''text'', content = VStr ''a'', results = None, timestamp = Some 100\<rparr>]\<rparr>)
   \<and> processChunk js tick 0 (logText ''a'' @ [LF, LF]) (Live initial) = Live initial"
proof -
  have n: "LF \<notin> set (''data: '' @ logText ''a'')" "LF \<notin> set (logText ''a'')"
    by (simp_all add: LF_def logText_def)
  have m: "\<not> startsWith (logText ''a'') ''data: ''"
    by (simp add: startsWith_def logText_def)
  have e: "logText ''a'' \<noteq> []"
    by (simp add: logText_def)
  have l: "logs initial = []"
    by (simp add: initial_def)
  note t1 = frame_needs_marker [OF n(1), where env = js and clock = tick and i = 0
      and rest = "[]" and w = "Live initial", THEN conjunct2, THEN spec, THEN mp, OF refl]
  note t2 = frame_needs_marker [OF n(2), where env = js and clock = tick and i = 0
      and rest = "[]" and w = "Live initial", THEN conjunct1, THEN mp, OF m]
  from t1 t2 show ?thesis
    by (simp add: processChunk_empty parse_log_a e dispatch_log isEvent_logEvent field_logEvent l
        tick_def)
qed


lemma readLoop_two:
  "readLoop env clock i [Chunk c1, Chunk c2] w =
     (None, processChunk env clock (i + length (split ''\<newline>\<newline>'' c1)) c2
              (processChunk env clock i c1 w))"
  by simp

lemma processChunk_single: "LF \<notin> set p \<Longrightarrow> processChunk env clock i p w = processLine env (clock i) p w"
  by (simp add: processChunk_def nn_LF split_no_LF)

lemma processChunk_single_LF:
  "LF \<notin> set p \<Longrightarrow> processChunk env clock i (p @ [LF]) w = processLine env (clock i) (p @ [LF]) w"
  by (simp add: processChunk_def nn_LF split_trailing_LF)

lemma processChunk_last:
  "LF \<notin> set p \<Longrightarrow> processChunk env clock i (p @ [LF, LF]) w = processLine env (clock i) p w"
  using processChunk_frame [of p env clock i "[]" w] by (simp add: processChunk_empty)

lemma short_not_marked: "length s < 6 \<Longrightarrow> \<not> startsWith s ''data: ''"
  by (auto simp add: startsWith_def)

lemma marker_tail_not_marked:
  assumes "0 < k" and "k < 6"
  shows "\<not> startsWith (drop k (''data: '' @ body)) ''data: ''"
proof -
  from assms consider "k = 1" | "k = 2" | "k = 3" | "k = 4" | "k = 5"
    by linarith
  then show ?thesis
    by cases (auto simp add: startsWith_def take_Cons')
qed

lemma take_past: "length m \<le> k \<Longrightarrow> take k (m @ b) = m @ take (k - length m) b"
  by simp

lemma drop_past: "length m \<le> k \<Longrightarrow> drop k (m @ b) = drop (k - length m) b"
  by simp

lemma marker_length: "length ''data: '' = 6"
  by simp

text \<open>
  Claim C10, as stated, fails where the end of a read cuts the delimiter: the first read
  then holds the whole frame followed by one line feed, which the decoder dispatches.
\<close>
theorem cut_delimiter_is_dispatched:
  "readLoop js tick 0 [Chunk cutChunk, Chunk ''\<newline>''] (Live initial) =
     (None, Live (initial\<lparr>logs :=
        [\<lparr>type = ''text'', content = VStr ''a'', results = None, timestamp = Some 100\<rparr>]\<rparr>))"
proof -
  have c: "cutChunk = (''data: '' @ logText ''a'') @ [LF]"
    by (simp add: cutChunk_def logText_def LF_def)
  have n: "LF \<notin> set (''data: '' @ logText ''a'')"
    by (simp add: LF_def logText_def)
  have p: "JSON_parse js (logText ''a'' @ [LF]) = Some (logEvent ''a'')"
    by (simp add: js_def logText_def logEvent_def parse_json_def skip_ws_def is_ws_def LF_def)
  have 1: "processChunk js tick 0 cutChunk (Live initial) =
      Live (initial\<lparr>logs :=
        [\<lparr>type = ''text'', content = VStr ''a'', results = None, timestamp = Some 100\<rparr>]\<rparr>)"
    unfolding c processChunk_single_LF [OF n]
    using processLine_marker [of js 100 "logText ''a'' @ [LF]" "Live initial"]
    by (simp add: p dispatch_log isEvent_logEvent field_logEvent initial_def tick_def)
  have 2: "processChunk js tick k ''\<newline>'' w = w" for k w
    by (simp add: processChunk_def processLine_def startsWith_def)
  show ?thesis
    unfolding readLoop_two 1 2 ..
qed

text \<open>
  Claim C10, amended. Each chunk is split and handled on its own, nothing is carried over
  to the next read. If a frame is cut inside its marker, or inside its payload at a place
  where the part read first is not JSON and the part read next does not pass the marker
  check and the parse, then both reads together leave the state as it was: the event is
  lost. If the frame is cut inside or just before the delimiter, the first read already
  holds the marker and the whole payload, and the event is dispatched.
\<close>

theorem split_frame_is_lost:
  assumes "LF \<notin> set body" and "0 < k" and "k < 6 + length body"
    and "6 < k \<longrightarrow> JSON_parse env (take (k - 6) body) = None"
    and "6 \<le> k \<longrightarrow> dropped env (drop (k - 6) body)"
  shows "readLoop env clock i
           [Chunk (take k (''data: '' @ body)), Chunk (drop k (''data: '' @ body) @ [LF, LF])] w =
         (None, w)
       \<and> (body \<noteq> [] \<longrightarrow>
            readLoop env clock i [Chunk (''data: '' @ body @ [LF]), Chunk [LF]] w =
            (None, case JSON_parse env (body @ [LF]) of
                     None \<Rightarrow> w
                   | Some ev \<Rightarrow> dispatch env (clock i) ev w))
       \<and> (body \<noteq> [] \<longrightarrow>
            readLoop env clock i [Chunk (''data: '' @ body), Chunk [LF, LF]] w =
            (None, case JSON_parse env body of
                     None \<Rightarrow> w
                   | Some ev \<Rightarrow> dispatch env (clock i) ev w))"
proof -
  let ?f = "''data: '' @ body"
  from assms(1) have n: "LF \<notin> set ?f"
    using marker_no_LF by simp
  then have n1: "LF \<notin> set (take k ?f)" and n2: "LF \<notin> set (drop k ?f)"
    by (meson in_set_takeD in_set_dropD)+
  have d1: "dropped env (take k ?f)"
  proof (cases "k < 6")
    case True
    then have "length (take k ?f) < 6" by simp
    then show ?thesis by (simp add: dropped_def short_not_marked)
  next
    case False
    then have "length ''data: '' \<le> k"
      unfolding marker_length by simp
    then have "take k ?f = ''data: '' @ take (k - length ''data: '') body"
      by (rule take_past)
    then have "take k ?f = ''data: '' @ take (k - 6) body"
      unfolding marker_length .
    with False assms(4) show ?thesis
      by (cases "k = 6") (simp_all add: dropped_def slice_def)
  qed
  have d2: "dropped env (drop k ?f)"
  proof (cases "k < 6")
    case True
    with assms(2) show ?thesis
      unfolding dropped_def using marker_tail_not_marked by blast
  next
    case False
    then have "length ''data: '' \<le> k"
      unfolding marker_length by simp
    then have "drop k ?f = drop (k - length ''data: '') body"
      by (rule drop_past)
    then have "drop k ?f = drop (k - 6) body"
      unfolding marker_length .
    with False assms(5) show ?thesis by simp
  qed
  have A: "readLoop env clock i
           [Chunk (take k (''data: '' @ body)), Chunk (drop k (''data: '' @ body) @ [LF, LF])] w =
         (None, w)"
    unfolding readLoop_two processChunk_single [OF n1] processChunk_last [OF n2]
      processLine_dropped [OF d1] processLine_dropped [OF d2] ..
  have e: "processChunk env clock j [LF] v = v" "processChunk env clock j [LF, LF] v = v" for j v
    by (simp_all add: processChunk_def processLine_def startsWith_def LF_def)
  have B: "readLoop env clock i [Chunk (''data: '' @ body @ [LF]), Chunk [LF]] w =
            (None, case JSON_parse env (body @ [LF]) of
                     None \<Rightarrow> w
                   | Some ev \<Rightarrow> dispatch env (clock i) ev w)"
  proof -
    have "''data: '' @ body @ [LF] = (''data: '' @ body) @ [LF]" by simp
    then show ?thesis
      unfolding readLoop_two e
      by (simp only: processChunk_single_LF [OF n])
        (simp only: append_assoc processLine_marker, simp)
  qed
  have C: "readLoop env clock i [Chunk (''data: '' @ body), Chunk [LF, LF]] w =
            (None, case JSON_parse env body of
                     None \<Rightarrow> w
                   | Some ev \<Rightarrow> dispatch env (clock i) ev w)" if "body \<noteq> []"
    unfolding readLoop_two e processChunk_single [OF n] processLine_marker
    using that by simp
  from A B C show ?thesis by blast
qed


theorem split_frame_is_lost_witness:
  "readLoop js tick 0
     [Chunk (take 12 (''data: '' @ logText ''a'')),
      Chunk (drop 12 (''data: '' @ logText ''a'') @ [LF, LF])] (Live initial) =
   (None, Live initial)
   \<and> readLoop js tick 0
     [Chunk (take 3 (''data: '' @ logText ''a'')),
      Chunk (drop 3 (''data: '' @ logText ''a'') @ [LF, LF])] (Live initial) =
   (None, Live initial)"
proof -
  have n: "LF \<notin> set (logText ''a'')"
    by (simp add: LF_def logText_def)
  have l: "length (logText ''a'') = 28"
    by (simp add: logText_def)
  have a1: "(0::nat) < 12" and a2: "12 < 6 + length (logText ''a'')"
    and b1: "(0::nat) < 3" and b2: "3 < 6 + length (logText ''a'')"
    by (simp_all add: l)
  have p: "6 < (12::nat) \<longrightarrow> JSON_parse js (take (12 - 6) (logText ''a'')) = None"
    by (simp add: js_def logText_def parse_json_def skip_ws_def is_ws_def)
  have d: "6 \<le> (12::nat) \<longrightarrow> dropped js (drop (12 - 6) (logText ''a''))"
    by (simp add: dropped_def logText_def startsWith_def)
  have p3: "6 < (3::nat) \<longrightarrow> JSON_parse js (take (3 - 6) (logText ''a'')) = None"
    by simp
  have d3: "6 \<le> (3::nat) \<longrightarrow> dropped js (drop (3 - 6) (logText ''a''))"
    by simp
  from split_frame_is_lost [OF n a1 a2 p d, THEN conjunct1]
    split_frame_is_lost [OF n b1 b2 p3 d3, THEN conjunct1]
  show ?thesis by (rule conjI)
qed


section \<open>The timeline\<close>

lemma update_id: "update (\<lambda>st. Inr st) w = w"
  by (cases w) simp_all

lemma shaped_Inl: "shaped (\<lambda>w. Inl e)"
  by (auto simp add: shaped_def)

lemma shaped_update:
  assumes "\<And>st. logs (g st) = logs st"
  shows "shaped (\<lambda>w. Inr (update (\<lambda>st. Inr (g st)) w))"
  unfolding shaped_def
  apply (rule disjI2)
  apply (rule exI [of _ None])
  apply (rule exI [of _ g])
  using assms by simp

lemma shaped_update_append:
  assumes "\<And>st. logs (g st) = logs st"
  shows "shaped (\<lambda>w. Inr (appendLog entry (update (\<lambda>st. Inr (g st)) w)))"
  unfolding shaped_def
  apply (rule disjI2)
  apply (rule exI [of _ "Some entry"])
  apply (rule exI [of _ g])
  using assms by simp

lemma shaped_id: "shaped (\<lambda>w. Inr w)"
  using shaped_update [of "\<lambda>st. st"] by (simp add: update_id)

lemma shaped_append: "shaped (\<lambda>w. Inr (appendLog entry w))"
  using shaped_update_append [of "\<lambda>st. st"] by (simp add: update_id)

lemma shaped_setters:
  "shaped (\<lambda>w. Inr (setBatchStatus v w))"
  "shaped (\<lambda>w. Inr (setHitlData f w))"
  "shaped (\<lambda>w. Inr (appendLog entry (setProductChoices g w)))"
  "shaped (\<lambda>w. Inr (appendLog entry (setAddressChoices h w)))"
  "shaped (\<lambda>w. Inr (appendLog entry (setPaymentChoices j w)))"
  "shaped (\<lambda>w. Inr (appendLog entry (setGeneralOptions k w)))"
  unfolding setBatchStatus_def setHitlData_def setProductChoices_def setAddressChoices_def
    setPaymentChoices_def setGeneralOptions_def
  by (rule shaped_update shaped_update_append, simp)+

lemma shaped_ebind:
  assumes "\<And>x. shaped (\<lambda>w. f x w)"
  shows "shaped (\<lambda>w. ebind m (\<lambda>x. f x w))"
  using assms by (cases m) (simp_all add: shaped_Inl)

lemma shaped_if:
  assumes "shaped A" and "shaped B"
  shows "shaped (\<lambda>w. if c then A w else B w)"
  using assms by (cases c) (simp_all add: eta_contract_eq)

lemma shaped_case_sum:
  assumes "\<And>e. shaped (\<lambda>w. F e w)" and "\<And>v. shaped (\<lambda>w. G v w)"
  shows "shaped (\<lambda>w. case s of Inl e \<Rightarrow> F e w | Inr v \<Rightarrow> G v w)"
  using assms by (cases s) simp_all

lemma handleEvent_shaped: "shaped (handleEvent env now ev)"
proof -
  have "shaped (\<lambda>w. handleEvent env now ev w)"
    unfolding handleEvent_def
    by (intro shaped_if shaped_ebind shaped_case_sum shaped_id shaped_append shaped_setters)
  then show ?thesis by simp
qed


lemma dispatch_effect:
  "dispatch env now ev Crashed = Crashed
   \<and> ((\<forall>st. dispatch env now ev (Live st) = Crashed)
      \<or> (\<exists>es. length es \<le> 1 \<and>
            (\<forall>st. \<exists>st'. dispatch env now ev (Live st) = Live st' \<and> logs st' = logs st @ es)))"
proof -
  from handleEvent_shaped [of env now ev]
  consider (throws) e where "\<And>w. handleEvent env now ev w = Inl e"
    | (applies) x g where "\<And>st. logs (g st) = logs st"
        "\<And>w. handleEvent env now ev w =
           Inr ((case x of None \<Rightarrow> id | Some entry \<Rightarrow> appendLog entry)
                (update (\<lambda>st. Inr (g st)) w))"
    unfolding shaped_def by blast
  then show ?thesis
  proof cases
    case throws
    then have "dispatch env now ev w = w" for w
      by (simp add: dispatch_def)
    then show ?thesis
      by (intro conjI disjI2 exI [of _ "[]"]) simp_all
  next
    case applies
    show ?thesis
    proof (cases x)
      case None
      with applies have "dispatch env now ev w = update (\<lambda>st. Inr (g st)) w" for w
        by (simp add: dispatch_def)
      with applies(1) show ?thesis
        by (intro conjI disjI2 exI [of _ "[]"]) simp_all
    next
      case (Some entry)
      with applies have d: "dispatch env now ev w = appendLog entry (update (\<lambda>st. Inr (g st)) w)"
        for w
        by (simp add: dispatch_def)
      show ?thesis
      proof (cases entry)
        case (Inl e)
        then have "dispatch env now ev w = Crashed" for w
          unfolding d by (cases w) (simp_all add: appendLog_def setLogs_def)
        then show ?thesis by simp
      next
        case (Inr a)
        then have "dispatch env now ev (Live st) = Live ((g st)\<lparr>logs := logs (g st) @ [a]\<rparr>)" for st
          unfolding d by (simp add: appendLog_Live)
        moreover have "dispatch env now ev Crashed = Crashed"
          unfolding d by (simp add: appendLog_Crashed)
        ultimately show ?thesis
          using applies(1) by (intro conjI disjI2 exI [of _ "[a]"]) simp_all
      qed
    qed
  qed
qed

lemma dispatch_Crashed: "dispatch env now ev Crashed = Crashed"
  using dispatch_effect by blast

lemma logs_initial: "logs initial = []"
  by (simp add: initial_def)

lemma appended_length: "length (appended env x) \<le> 1"
proof -
  from dispatch_effect [of env "fst x" "snd x"]
  consider "dispatch env (fst x) (snd x) (Live initial) = Crashed"
    | es st' where "length es \<le> 1" "dispatch env (fst x) (snd x) (Live initial) = Live st'"
        "logs st' = logs initial @ es"
    by blast
  then show ?thesis
    by cases (simp_all add: appended_def logs_initial)
qed

lemma dispatch_logs:
  assumes "dispatch env now ev (Live st) = Live st'"
  shows "logs st' = logs st @ appended env (now, ev)"
proof -
  from dispatch_effect [of env now ev] assms obtain es
    where a: "\<And>s. \<exists>s'. dispatch env now ev (Live s) = Live s' \<and> logs s' = logs s @ es"
    by fastforce
  from a [of initial] have "appended env (now, ev) = es"
    by (auto simp add: appended_def logs_initial)
  with a [of st] assms show ?thesis by auto
qed

lemma dispatchAll_Crashed: "dispatchAll env evs Crashed = Crashed"
  by (induction evs) (simp_all add: dispatch_Crashed)

lemma dispatchAll_logs:
  "dispatchAll env evs (Live st) = Live st' \<Longrightarrow>
   logs st' = logs st @ concat (map (appended env) evs)"
proof (induction evs arbitrary: st)
  case Nil
  then show ?case by simp
next
  case (Cons x xs)
  show ?case
  proof (cases "dispatch env (fst x) (snd x) (Live st)")
    case Crashed
    with Cons.prems show ?thesis
      by (simp add: dispatchAll_Crashed)
  next
    case (Live s)
    with Cons.prems have "dispatchAll env xs (Live s) = Live st'" by simp
    from Cons.IH [OF this] dispatch_logs [OF Live] show ?thesis by simp
  qed
qed

lemma dispatchAll_append:
  "dispatchAll env (xs @ ys) w = dispatchAll env ys (dispatchAll env xs w)"
  by (induction xs arbitrary: w) simp_all

lemma processLine_decode:
  "processLine env now line w =
     (case decodeLine env line of None \<Rightarrow> w | Some ev \<Rightarrow> dispatch env now ev w)"
  by (simp add: processLine_def decodeLine_def Let_def)

lemma forLines_dispatchAll:
  "forLines env clock i lines w = dispatchAll env (eventsOf env clock i lines) w"
  by (induction lines arbitrary: i w) (simp_all add: processLine_decode split: option.splits)

lemma readLoop_dispatchAll:
  "snd (readLoop env clock i reads w) = dispatchAll env (decoded env clock i reads) w"
proof (induction reads arbitrary: i w)
  case Nil
  then show ?case by simp
next
  case (Cons r rs)
  then show ?case
    by (cases r) (simp_all add: processChunk_def forLines_dispatchAll dispatchAll_append)
qed

text \<open>
  Claim C9. Every event contributes at most one entry, and what it contributes does not
  depend on the state. Dispatching an event leaves the timeline that was there as a
  prefix and puts the event's entries after it; after the reads of a stream the timeline
  is the old timeline followed by the entries of the decoded events, in the order of
  decoding. (A component that crashed shows no timeline; the statement is about the runs
  that leave it live.)
\<close>
theorem timeline_is_append_only:
  "length (appended env x) \<le> 1
   \<and> (dispatch env now ev (Live st) = Live st' \<longrightarrow> logs st' = logs st @ appended env (now, ev))
   \<and> (readLoop env clock i reads (Live st) = (err, Live st') \<longrightarrow>
        logs st' = logs st @ concat (map (appended env) (decoded env clock i reads)))"
proof (intro conjI impI)
  show "length (appended env x) \<le> 1"
    by (rule appended_length)
next
  assume "dispatch env now ev (Live st) = Live st'"
  then show "logs st' = logs st @ appended env (now, ev)"
    by (rule dispatch_logs)
next
  assume "readLoop env clock i reads (Live st) = (err, Live st')"
  then have "dispatchAll env (decoded env clock i reads) (Live st) = Live st'"
    using readLoop_dispatchAll [of env clock i reads "Live st"] by simp
  then show "logs st' = logs st @ concat (map (appended env) (decoded env clock i reads))"
    by (rule dispatchAll_logs)
qed


lemma decoded_twoReads:
  "decoded js tick 0 twoReads =
     [(100, logEvent ''a''), (102, logEvent ''b''), (104, logEvent ''c'')]"
  by (simp add: twoReads_def exampleChunk_def decodeLine_def startsWith_def slice_def js_def
      parse_json_def skip_ws_def is_ws_def parse_number_def is_digit_def logEvent_def tick_def)

lemma appended_logEvent: "appended env (t, logEvent s) = [textLog t s]"
  by (simp add: appended_def dispatch_log isEvent_logEvent field_logEvent logs_initial textLog_def)

theorem timeline_is_append_only_witness:
  "\<exists>st'. readLoop js tick 0 twoReads (Live asking) = (None, Live st')
      \<and> logs st' = logs asking @ [textLog 100 ''a'', textLog 102 ''b'', textLog 104 ''c'']
      \<and> logs asking = [textLog 1 ''Which colour?'']"
proof -
  have "snd (readLoop js tick 0 twoReads (Live asking)) =
      dispatchAll js [(100, logEvent ''a''), (102, logEvent ''b''), (104, logEvent ''c'')]
        (Live asking)"
    by (simp only: readLoop_dispatchAll decoded_twoReads)
  also have "\<dots> = Live (asking\<lparr>logs := logs asking @
      [textLog 100 ''a'', textLog 102 ''b'', textLog 104 ''c'']\<rparr>)"
    by (simp add: dispatch_log isEvent_logEvent field_logEvent textLog_def)
  finally have s: "snd (readLoop js tick 0 twoReads (Live asking)) =
      Live (asking\<lparr>logs := logs asking @
        [textLog 100 ''a'', textLog 102 ''b'', textLog 104 ''c'']\<rparr>)" .
  have "fst (readLoop js tick 0 twoReads (Live asking)) = None"
    by (simp add: twoReads_def)
  with s have r: "readLoop js tick 0 twoReads (Live asking) =
      (None, Live (asking\<lparr>logs := logs asking @
        [textLog 100 ''a'', textLog 102 ''b'', textLog 104 ''c'']\<rparr>))"
    by (simp add: prod_eq_iff)
  from timeline_is_append_only [THEN conjunct2, THEN conjunct2, THEN mp, OF r]
  have "logs (asking\<lparr>logs := logs asking @
        [textLog 100 ''a'', textLog 102 ''b'', textLog 104 ''c'']\<rparr>) =
      logs asking @ concat (map (appended js) (decoded js tick 0 twoReads))" .
  then have "logs (asking\<lparr>logs := logs asking @
        [textLog 100 ''a'', textLog 102 ''b'', textLog 104 ''c'']\<rparr>) =
      logs asking @ [textLog 100 ''a'', textLog 102 ''b'', textLog 104 ''c'']"
    by (simp only: decoded_twoReads) (simp add: appended_logEvent)
  moreover have "logs asking = [textLog 1 ''Which colour?'']"
    by (simp add: asking_def)
  ultimately show ?thesis
    using r by blast
qed


end
